theory Spec2Isabelle
  imports Complex_Main "HOL-Library.Word"
begin

unbundle bit_operations_syntax

section \<open>Common data\<close>

text \<open>
  Lua numbers are modelled as rationals: every quantity the modules compute is obtained
  from integer screen coordinates by addition, subtraction, multiplication and division by
  small integers, all of which are exact on the doubles Lua uses.
\<close>

type_synonym lua_number = rat

text \<open>A rectangle: the work area of a screen, or the geometry given to a client.\<close>

record rect =
  r_x :: lua_number
  r_y :: lua_number
  r_width :: lua_number
  r_height :: lua_number

section \<open>The stacking layout (awful.layout.suit.xterm)\<close>

text \<open>
  The parameter table \<open>p\<close> of \<open>arrange\<close>: the work area, the ordered client list and the
  table \<open>p.geometries\<close> from client to rectangle that the layout fills in.
\<close>

record 'c layout_params =
  p_workarea :: rect
  p_clients :: "'c list"
  p_geometries :: "'c \<rightharpoonup> rect"

text \<open>
  The body of \<open>for k, c in ipairs(cls)\<close>: \<open>k\<close> is the 1-based index that ipairs yields,
  decremented at the top of the body; the rest of the list is what is still to be visited.
\<close>

fun xterm_loop :: "rect \<Rightarrow> lua_number \<Rightarrow> int \<Rightarrow> 'c list \<Rightarrow> ('c \<rightharpoonup> rect) \<Rightarrow> ('c \<rightharpoonup> rect)" where
  "xterm_loop wa height k [] geos = geos"
| "xterm_loop wa height k (c # cs) geos =
     (let k0 = k - 1;
          g = \<lparr> r_x = 0 + r_x wa,
                r_y = height * of_int k0 + r_y wa,
                r_width = r_width wa,
                r_height = height \<rparr>
      in xterm_loop wa height (k + 1) cs (geos(c \<mapsto> g)))"

definition do_xterm :: "'c layout_params \<Rightarrow> 'c layout_params" where
  "do_xterm p =
     (let wa = p_workarea p; cls = p_clients p in
      if length cls > 0 then
        (let rows = length cls;
             height = of_int \<lceil>r_height wa / of_nat rows\<rceil>
         in p\<lparr> p_geometries := xterm_loop wa height 1 cls (p_geometries p) \<rparr>)
      else p)"

definition xterm_arrange :: "'c layout_params \<Rightarrow> 'c layout_params" where
  "xterm_arrange p = do_xterm p"

section \<open>The keyboard layout bridge (xkb.c)\<close>

type_synonym u8 = "8 word"
type_synonym u16 = "16 word"
type_synonym u32 = "32 word"

text \<open>
  The constants of the XKB protocol header that the handler switches on. They come from
  \<open>xcb/xkb.h\<close>, which is not part of the repository; the values are the protocol's.
\<close>

definition XCB_XKB_NEW_KEYBOARD_NOTIFY :: u8 where "XCB_XKB_NEW_KEYBOARD_NOTIFY = 0"
definition XCB_XKB_STATE_NOTIFY :: u8 where "XCB_XKB_STATE_NOTIFY = 2"
definition XCB_XKB_NAMES_NOTIFY :: u8 where "XCB_XKB_NAMES_NOTIFY = 6"
definition XCB_XKB_NKN_DETAIL_KEYCODES :: u16 where "XCB_XKB_NKN_DETAIL_KEYCODES = 1"
definition XCB_XKB_STATE_PART_GROUP_STATE :: u16 where "XCB_XKB_STATE_PART_GROUP_STATE = 16"

text \<open>
  An incoming event. \<open>ev_pad0\<close> is the sub-type byte of the generic event; the handler
  casts the same event to the new-keyboard and state-notify structures, whose fields
  \<open>changed\<close> (and \<open>group\<close>) are kept here as separate views of the event.
\<close>

record xkb_event =
  ev_pad0 :: u8
  ev_nkn_changed :: u16
  ev_sn_changed :: u16
  ev_sn_group :: u8

text \<open>A signal emitted on the global signal object: its name and the values pushed for it.\<close>

record emitted_signal =
  sig_name :: string
  sig_args :: "lua_number list"

definition event_handle_xkb_notify :: "xkb_event \<Rightarrow> emitted_signal list" where
  "event_handle_xkb_notify event =
     (if ev_pad0 event = XCB_XKB_NEW_KEYBOARD_NOTIFY then
        (if ev_nkn_changed event AND XCB_XKB_NKN_DETAIL_KEYCODES \<noteq> 0
         then [\<lparr> sig_name = ''xkb::map_changed'', sig_args = [] \<rparr>]
         else [])
      else if ev_pad0 event = XCB_XKB_NAMES_NOTIFY then
        [\<lparr> sig_name = ''xkb::map_changed'', sig_args = [] \<rparr>]
      else if ev_pad0 event = XCB_XKB_STATE_NOTIFY then
        (if ev_sn_changed event AND XCB_XKB_STATE_PART_GROUP_STATE \<noteq> 0
         then [\<lparr> sig_name = ''xkb::group_changed'',
                 sig_args = [of_nat (unat (ev_sn_group event))] \<rparr>]
         else [])
      else [])"

text \<open>
  The two queries. The X server's answers are parameters: a reply is \<open>None\<close> when the
  reply function returns NULL. A call yields the number of values it reports to the Lua
  VM, the values it pushed and the warnings it logged.
\<close>

datatype lua_value = LNumber lua_number | LString string

record lua_return =
  ret_count :: nat
  ret_pushed :: "lua_value list"
  ret_warnings :: "string list"

record xkb_state_reply =
  sr_group :: u8

definition luaA_xkb_get_layout_group :: "xkb_state_reply option \<Rightarrow> lua_return" where
  "luaA_xkb_get_layout_group state_r =
     (case state_r of
        None \<Rightarrow> \<lparr> ret_count = 0, ret_pushed = [], ret_warnings = [] \<rparr>
      | Some r \<Rightarrow> \<lparr> ret_count = 1,
                    ret_pushed = [LNumber (of_nat (unat (sr_group r)))],
                    ret_warnings = [] \<rparr>)"

text \<open>
  The names reply, after the value list is unpacked, carries the atom \<open>symbolsName\<close>; the
  atom's text is the answer of a second query.
\<close>

record xkb_names_reply =
  nr_symbolsName :: u32

definition luaA_xkb_get_group_names ::
  "xkb_names_reply option \<Rightarrow> (u32 \<Rightarrow> string option) \<Rightarrow> lua_return" where
  "luaA_xkb_get_group_names name_r atom_name_reply =
     (case name_r of
        None \<Rightarrow> \<lparr> ret_count = 0, ret_pushed = [],
                  ret_warnings = [''Failed to get xkb symbols name''] \<rparr>
      | Some nr \<Rightarrow>
          (case atom_name_reply (nr_symbolsName nr) of
             None \<Rightarrow> \<lparr> ret_count = 0, ret_pushed = [],
                       ret_warnings = [''Failed to get atom symbols name''] \<rparr>
           | Some name \<Rightarrow> \<lparr> ret_count = 1, ret_pushed = [LString name],
                            ret_warnings = [] \<rparr>))"

section \<open>The notification popup manager (naughty)\<close>

subsection \<open>Data\<close>

text \<open>
  A Lua error (indexing nil, arithmetic on nil) and running out of the fuel that bounds
  the depth of the mutually recursive calls are the two ways an operation yields no result.
\<close>

datatype error = Lua_error | Out_of_fuel

text \<open>The six keys of \<open>naughty.notifications[s]\<close>, in the order of the table constructor.\<close>

datatype position =
  Top_left | Top_middle | Top_right | Bottom_left | Bottom_middle | Bottom_right

fun position_name :: "position \<Rightarrow> string" where
  "position_name Top_left = ''top_left''"
| "position_name Top_middle = ''top_middle''"
| "position_name Top_right = ''top_right''"
| "position_name Bottom_left = ''bottom_left''"
| "position_name Bottom_middle = ''bottom_middle''"
| "position_name Bottom_right = ''bottom_right''"

definition all_positions :: "position list" where
  "all_positions = [Top_left, Top_middle, Top_right, Bottom_left, Bottom_middle, Bottom_right]"

text \<open>
  \<open>s:match(pat)\<close> for a pattern without magic characters, as a truth value: the pattern
  occurs somewhere in \<open>s\<close>.
\<close>

fun starts_with :: "string \<Rightarrow> string \<Rightarrow> bool" where
  "starts_with s [] = True"
| "starts_with [] (p # ps) = False"
| "starts_with (c # cs) (p # ps) = (c = p \<and> starts_with cs ps)"

fun lua_match :: "string \<Rightarrow> string \<Rightarrow> bool" where
  "lua_match [] pat = starts_with [] pat"
| "lua_match (c # cs) pat = (starts_with (c # cs) pat \<or> lua_match cs pat)"

text \<open>\<open>t[i]\<close> on a sequence, with Lua's 1-based index: nil outside \<open>1..#t\<close>.\<close>

definition lua_index :: "'a list \<Rightarrow> int \<Rightarrow> 'a option" where
  "lua_index xs i = (if 1 \<le> i \<and> i \<le> int (length xs) then Some (xs ! nat (i - 1)) else None)"

text \<open>
  \<open>table.remove(t, pos)\<close>: the element at \<open>pos\<close> is taken out and the later ones move
  down; a position outside \<open>1..#t\<close> removes nothing (Lua 5.1; later versions raise an
  error for most such positions, and no property below rests on this case).
\<close>

definition table_remove :: "'a list \<Rightarrow> int \<Rightarrow> 'a list" where
  "table_remove xs pos =
     (if 1 \<le> pos \<and> pos \<le> int (length xs) then take (nat (pos - 1)) xs @ drop (nat pos) xs
      else xs)"

text \<open>The values of \<open>naughty.notificationClosedReason\<close>.\<close>

definition reason_silent :: int where "reason_silent = -1"
definition reason_expired :: int where "reason_expired = 1"
definition reason_dismissedByUser :: int where "reason_dismissedByUser = 2"
definition reason_dismissedByCommand :: int where "reason_dismissedByCommand = 3"
definition reason_undefined :: int where "reason_undefined = 4"

text \<open>
  Modelled from the spec: \<open>gears.timer\<close> is not among the sources. An expiry timer has
  the duration it was made with and is running or not; \<open>start\<close> and \<open>stop\<close> set that flag.
\<close>

record timer =
  t_timeout :: lua_number
  t_started :: bool

text \<open>
  A notification object. \<open>n_destroy_cb\<close> tells whether a destroy callback was given; the
  \<open>box_\<close> fields are the visibility and geometry of its wibox. Notification objects are
  shared between the per-position lists and the suspended list, so they live in a store
  and the lists hold references.
\<close>

type_synonym ref = nat

record notification =
  n_screen :: nat
  n_destroy_cb :: bool
  n_timeout :: lua_number
  n_id :: int
  n_position :: position
  n_timer :: "timer option"
  n_height :: lua_number
  n_width :: lua_number
  n_idx :: int
  box_visible :: bool
  box_x :: lua_number
  box_y :: lua_number
  box_width :: lua_number
  box_height :: lua_number

text \<open>
  A preset table, and the argument table of \<open>notify\<close>, restricted to the fields that decide
  identity, timing, size and placement. An absent field is \<open>None\<close>.
\<close>

record preset =
  ps_timeout :: "lua_number option"
  ps_screen :: "nat option"
  ps_width :: "lua_number option"
  ps_height :: "lua_number option"
  ps_margin :: "lua_number option"
  ps_border_width :: "lua_number option"
  ps_position :: "position option"

record notify_args =
  a_timeout :: "lua_number option"
  a_screen :: "nat option"
  a_width :: "lua_number option"
  a_height :: "lua_number option"
  a_margin :: "lua_number option"
  a_border_width :: "lua_number option"
  a_position :: "position option"
  a_preset :: "preset option"
  a_replaces_id :: "int option"
  a_destroy :: bool

text \<open>
  What the widget toolkit reports while \<open>notify\<close> runs: the size \<open>textbox:fit(-1, -1)\<close>
  gives for the text, the size each action's textbox fits to, and \<open>icon_w, icon_h\<close> as
  they stand after the icon block when an icon box was made.
\<close>

record host_measure =
  m_text_w :: lua_number
  m_text_h :: lua_number
  m_actions :: "(lua_number \<times> lua_number) list"
  m_icon :: "(lua_number \<times> lua_number) option"

text \<open>
  The module's state: the configuration table, the counter, the suspended flag, the
  per-screen per-position lists and the suspended list, the store of notification objects,
  the host's screens with their work areas, the global variable \<open>timeout\<close> (normally
  undefined), and the record of destroy callbacks invoked, each with the notification and
  the reason passed. A nil \<open>defaults\<close> or \<open>presets.normal\<close> table is the empty preset, which
  is what \<open>or {}\<close> makes of it.
\<close>

record naughty_state =
  cfg_padding :: "lua_number option"
  cfg_spacing :: lua_number
  cfg_defaults :: preset
  cfg_presets_normal :: preset
  cfg_notify_callback :: "(notify_args \<Rightarrow> notify_args option) option"
  counter :: int
  suspended :: bool
  notifications :: "nat \<Rightarrow> position \<Rightarrow> ref list"
  notifications_suspended :: "ref list"
  objs :: "ref \<Rightarrow> notification"
  next_ref :: ref
  screen_count :: nat
  workarea :: "nat \<Rightarrow> rect"
  global_timeout :: "lua_number option"
  destroy_cb_calls :: "(ref \<times> int) list"

definition valid_screen :: "naughty_state \<Rightarrow> nat \<Rightarrow> bool" where
  "valid_screen st s = (1 \<le> s \<and> s \<le> screen_count st)"

subsection \<open>Suspend, resume, toggle\<close>

definition naughty_suspend :: "naughty_state \<Rightarrow> naughty_state" where
  "naughty_suspend st = st\<lparr> suspended := True \<rparr>"

fun resume_loop :: "(ref \<Rightarrow> notification) \<Rightarrow> ref list \<Rightarrow> (ref \<Rightarrow> notification)" where
  "resume_loop os [] = os"
| "resume_loop os (v # vs) =
     (let n1 = (os v)\<lparr> box_visible := True \<rparr>;
          n2 = (case n_timer n1 of
                  None \<Rightarrow> n1
                | Some t \<Rightarrow> n1\<lparr> n_timer := Some (t\<lparr> t_started := True \<rparr>) \<rparr>)
      in resume_loop (os(v := n2)) vs)"

definition naughty_resume :: "naughty_state \<Rightarrow> naughty_state" where
  "naughty_resume st =
     st\<lparr> suspended := False,
         objs := resume_loop (objs st) (notifications_suspended st),
         notifications_suspended := [] \<rparr>"

definition naughty_toggle :: "naughty_state \<Rightarrow> naughty_state" where
  "naughty_toggle st = (if suspended st then naughty_resume st else naughty_suspend st)"

subsection \<open>get_offset, arrange and destroy\<close>

record offset =
  off_x :: lua_number
  off_y :: lua_number
  off_idx :: int

text \<open>The three branches of "calculate x".\<close>

definition get_offset_x :: "rect \<Rightarrow> lua_number \<Rightarrow> position \<Rightarrow> lua_number \<Rightarrow> lua_number" where
  "get_offset_x ws padding position width =
     (if lua_match (position_name position) ''left'' then r_x ws + padding
      else if lua_match (position_name position) ''middle'' then (r_width ws / 2) - (width / 2)
      else r_x ws + r_width ws - (width + padding))"

text \<open>
  "calculate existing popups' height": the loop \<open>for i = 1, idx-1\<close>, after its first
  \<open>k\<close> rounds. Reading the height of an entry that is not in the list is a Lua error.
\<close>

fun existing_height :: "(ref \<Rightarrow> notification) \<Rightarrow> lua_number \<Rightarrow> ref list \<Rightarrow> nat \<Rightarrow> error + lua_number" where
  "existing_height os spacing lst 0 = Inr 0"
| "existing_height os spacing lst (Suc k) =
     (case existing_height os spacing lst k of
        Inl e \<Rightarrow> Inl e
      | Inr existing \<Rightarrow>
          (case lua_index lst (int (Suc k)) of
             None \<Rightarrow> Inl Lua_error
           | Some r \<Rightarrow> Inr (existing + n_height (os r) + spacing)))"

text \<open>The two branches of "calculate y".\<close>

definition get_offset_y ::
  "rect \<Rightarrow> lua_number \<Rightarrow> position \<Rightarrow> lua_number \<Rightarrow> lua_number \<Rightarrow> lua_number" where
  "get_offset_y ws padding position height existing =
     (if lua_match (position_name position) ''top'' then r_y ws + padding + existing
      else r_y ws + r_height ws - (padding + height + existing))"

text \<open>The test "positioned outside workarea".\<close>

definition outside_workarea :: "rect \<Rightarrow> lua_number \<Rightarrow> lua_number \<Rightarrow> bool" where
  "outside_workarea ws y height = (y + height > r_y ws + r_height ws \<or> y < r_y ws)"

definition stop_timer :: "notification \<Rightarrow> notification" where
  "stop_timer n =
     (case n_timer n of
        None \<Rightarrow> n
      | Some t \<Rightarrow> n\<lparr> n_timer := Some (t\<lparr> t_started := False \<rparr>) \<rparr>)"

text \<open>
  The first part of \<open>get_offset\<close>, up to "calculate y": the offset for the index, before
  the test against the work area, together with the width that was used. An unknown
  screen, a width read from an entry that is not in the list and arithmetic on an absent
  padding are Lua errors.
\<close>

definition get_offset_calc ::
  "naughty_state \<Rightarrow> nat \<Rightarrow> position \<Rightarrow> int option \<Rightarrow> lua_number option \<Rightarrow> lua_number
     \<Rightarrow> error + (offset \<times> lua_number)" where
  "get_offset_calc st screen position idx0 width0 height =
     (if \<not> valid_screen st screen then Inl Lua_error
      else
        let ws = workarea st screen;
            lst = notifications st screen position;
            idx = (case idx0 of Some i \<Rightarrow> i | None \<Rightarrow> int (length lst) + 1)
        in
        case (case width0 of
                Some w \<Rightarrow> Some w
              | None \<Rightarrow> map_option (\<lambda>r. n_width (objs st r)) (lua_index lst idx)) of
          None \<Rightarrow> Inl Lua_error
        | Some width \<Rightarrow>
            (case cfg_padding st of
               None \<Rightarrow> Inl Lua_error
             | Some padding \<Rightarrow>
                 (case existing_height (objs st) (cfg_spacing st) lst (nat (idx - 1)) of
                    Inl e \<Rightarrow> Inl e
                  | Inr existing \<Rightarrow>
                      Inr (\<lparr> off_x = get_offset_x ws padding position width,
                             off_y = get_offset_y ws padding position height existing,
                             off_idx = idx \<rparr>,
                           width))))"

text \<open>
  The part of \<open>naughty.destroy\<close> before \<open>arrange\<close>: the notification leaves the suspended
  list (when suspended) and the list of its position at the index it records, its timer is
  stopped and its box is hidden.
\<close>

definition destroy_remove :: "naughty_state \<Rightarrow> ref \<Rightarrow> naughty_state" where
  "destroy_remove st r =
     (let st1 = (if suspended st
                 then st\<lparr> notifications_suspended := remove1 r (notifications_suspended st) \<rparr>
                 else st);
          scr = n_screen (objs st1 r);
          pos = n_position (objs st1 r);
          st2 = st1\<lparr> notifications :=
                      (notifications st1)
                        (scr := (notifications st1 scr)
                           (pos := table_remove (notifications st1 scr pos) (n_idx (objs st1 r)))) \<rparr>
      in st2\<lparr> objs := (objs st2)(r := (stop_timer (objs st2 r))\<lparr> box_visible := False \<rparr>) \<rparr>)"

text \<open>
  The part of \<open>naughty.destroy\<close> after \<open>arrange\<close>: the destroy callback, if there is one
  and the reason is not the silent one, is called with the reason, or with the undefined
  reason when none was given. The call is recorded, not run.
\<close>

definition destroy_callback :: "naughty_state \<Rightarrow> ref \<Rightarrow> int option \<Rightarrow> naughty_state" where
  "destroy_callback st r reason =
     (if n_destroy_cb (objs st r) \<and> reason \<noteq> Some reason_silent
      then st\<lparr> destroy_cb_calls :=
                  destroy_cb_calls st
                  @ [(r, case reason of Some v \<Rightarrow> v | None \<Rightarrow> reason_undefined)] \<rparr>
      else st)"

text \<open>The body of the inner loop of \<open>arrange\<close> after \<open>get_offset\<close> has returned.\<close>

definition apply_offset :: "naughty_state \<Rightarrow> ref \<Rightarrow> offset \<Rightarrow> naughty_state" where
  "apply_offset st r off =
     st\<lparr> objs := (objs st)
           (r := (objs st r)\<lparr> box_x := off_x off, box_y := off_y off, n_idx := off_idx off \<rparr>) \<rparr>"

text \<open>
  \<open>get_offset\<close>, \<open>arrange\<close> and \<open>naughty.destroy\<close> call each other; the first argument
  bounds the number of nested calls and loop rounds. \<open>arrange_positions\<close> is the outer loop
  of \<open>arrange\<close> over the positions still to visit, \<open>arrange_list\<close> the inner loop from
  index \<open>i\<close> on: the traversal of the list's array part reads the list as it is at each
  step, so it ends at the first index that holds nothing.
\<close>

function (sequential) get_offset ::
    "nat \<Rightarrow> naughty_state \<Rightarrow> nat \<Rightarrow> position \<Rightarrow> int option \<Rightarrow> lua_number option \<Rightarrow> lua_number
      \<Rightarrow> error + (offset \<times> naughty_state)"
  and naughty_destroy ::
    "nat \<Rightarrow> naughty_state \<Rightarrow> ref option \<Rightarrow> int option \<Rightarrow> error + (bool \<times> naughty_state)"
  and arrange :: "nat \<Rightarrow> naughty_state \<Rightarrow> nat \<Rightarrow> error + naughty_state"
  and arrange_positions :: "nat \<Rightarrow> naughty_state \<Rightarrow> nat \<Rightarrow> position list \<Rightarrow> error + naughty_state"
  and arrange_list :: "nat \<Rightarrow> naughty_state \<Rightarrow> nat \<Rightarrow> position \<Rightarrow> int \<Rightarrow> error + naughty_state"
where
  "get_offset 0 st screen position idx0 width0 height = Inl Out_of_fuel"
| "get_offset (Suc fuel) st screen position idx0 width0 height =
     (case get_offset_calc st screen position idx0 width0 height of
        Inl e \<Rightarrow> Inl e
      | Inr (v, width) \<Rightarrow>
          if outside_workarea (workarea st screen) (off_y v) height then
            (case naughty_destroy fuel st (lua_index (notifications st screen position) 1) None of
               Inl e \<Rightarrow> Inl e
             | Inr (_, st1) \<Rightarrow>
                 get_offset fuel st1 screen position (Some (off_idx v - 1)) (Some width) height)
          else Inr (v, st))"
| "naughty_destroy 0 st notification reason = Inl Out_of_fuel"
| "naughty_destroy (Suc fuel) st None reason = Inr (False, st)"
| "naughty_destroy (Suc fuel) st (Some r) reason =
     (if \<not> box_visible (objs st r) then Inr (False, st)
      else if \<not> valid_screen st (n_screen (objs st r)) then Inl Lua_error
      else
        case arrange fuel (destroy_remove st r) (n_screen (objs st r)) of
          Inl e \<Rightarrow> Inl e
        | Inr st4 \<Rightarrow> Inr (True, destroy_callback st4 r reason))"
| "arrange 0 st screen = Inl Out_of_fuel"
| "arrange (Suc fuel) st screen =
     (if \<not> valid_screen st screen then Inl Lua_error
      else arrange_positions fuel st screen all_positions)"
| "arrange_positions 0 st screen ps = Inl Out_of_fuel"
| "arrange_positions (Suc fuel) st screen [] = Inr st"
| "arrange_positions (Suc fuel) st screen (p # ps) =
     (case arrange_list fuel st screen p 1 of
        Inl e \<Rightarrow> Inl e
      | Inr st1 \<Rightarrow> arrange_positions fuel st1 screen ps)"
| "arrange_list 0 st screen p i = Inl Out_of_fuel"
| "arrange_list (Suc fuel) st screen p i =
     (case lua_index (notifications st screen p) i of
        None \<Rightarrow> Inr st
      | Some r \<Rightarrow>
          (case get_offset fuel st screen p (Some i) (Some (n_width (objs st r))) (n_height (objs st r)) of
             Inl e \<Rightarrow> Inl e
           | Inr (off, st1) \<Rightarrow> arrange_list fuel (apply_offset st1 r off) screen p (i + 1)))"
  by pat_completeness auto
termination
  by (relation "measure (\<lambda>x. case x of
        Inl (Inl (fuel, _)) \<Rightarrow> fuel
      | Inl (Inr (fuel, _)) \<Rightarrow> fuel
      | Inr (Inl (fuel, _)) \<Rightarrow> fuel
      | Inr (Inr (Inl (fuel, _))) \<Rightarrow> fuel
      | Inr (Inr (Inr (fuel, _))) \<Rightarrow> fuel)") simp_all

subsection \<open>getById\<close>

text \<open>
  The three nested loops of \<open>getById\<close> visit the screens \<open>1..count\<close>, the positions and the
  entries of each list, and return the first notification with the id.
\<close>

definition all_notifications :: "naughty_state \<Rightarrow> ref list" where
  "all_notifications st =
     concat (map (\<lambda>s. concat (map (\<lambda>p. notifications st s p) all_positions))
                 [1 ..< Suc (screen_count st)])"

definition getById :: "naughty_state \<Rightarrow> int \<Rightarrow> ref option" where
  "getById st nid = List.find (\<lambda>r. n_id (objs st r) = nid) (all_notifications st)"

subsection \<open>Timers\<close>

text \<open>
  \<open>set_timeout\<close> on a notification object: a positive timeout installs a new timer,
  started unless notifications are suspended; otherwise the timer field is left alone.
\<close>

definition set_timeout :: "bool \<Rightarrow> notification \<Rightarrow> lua_number \<Rightarrow> notification" where
  "set_timeout susp n timeout =
     (if timeout > 0
      then n\<lparr> n_timer := Some \<lparr> t_timeout = timeout, t_started = \<not> susp \<rparr> \<rparr>
      else n)"

text \<open>
  \<open>naughty.reset_timeout\<close>. In \<open>local timeout = timeout or notification.timeout\<close> the name
  on the right is the global variable \<open>timeout\<close>, since the local is not yet in scope;
  the parameter \<open>new_timeout\<close> is not read. The final \<open>notification.timer:start()\<close> is a
  Lua error when the notification has no timer.
\<close>

definition reset_timeout :: "naughty_state \<Rightarrow> ref \<Rightarrow> lua_number option \<Rightarrow> error + naughty_state" where
  "reset_timeout st r new_timeout =
     (let n0 = stop_timer (objs st r);
          timeout = (case global_timeout st of Some t \<Rightarrow> t | None \<Rightarrow> n_timeout n0);
          n1 = set_timeout (suspended st) n0 timeout;
          n2 = n1\<lparr> n_timeout := timeout \<rparr>
      in case n_timer n2 of
           None \<Rightarrow> Inl Lua_error
         | Some t \<Rightarrow>
             Inr (st\<lparr> objs := (objs st)(r := n2\<lparr> n_timer := Some (t\<lparr> t_started := True \<rparr>) \<rparr>) \<rparr>))"

subsection \<open>notify\<close>

text \<open>\<open>a or b\<close> on values that are nil or not.\<close>

definition lua_or :: "'a option \<Rightarrow> 'a option \<Rightarrow> 'a option" where
  "lua_or a b = (case a of Some v \<Rightarrow> Some v | None \<Rightarrow> b)"

definition or0 :: "lua_number option \<Rightarrow> lua_number" where
  "or0 a = (case a of Some v \<Rightarrow> v | None \<Rightarrow> 0)"

text \<open>
  Modelled from the spec: \<open>util.table.join\<close> of \<open>awful.util\<close> is not among the sources.
  The caller's fields are merged over the preset and the preset over the defaults, so in
  \<open>util.table.join(a, b)\<close> the fields of \<open>b\<close> override those of \<open>a\<close>.
\<close>

definition table_join :: "preset \<Rightarrow> preset \<Rightarrow> preset" where
  "table_join a b =
     \<lparr> ps_timeout = lua_or (ps_timeout b) (ps_timeout a),
       ps_screen = lua_or (ps_screen b) (ps_screen a),
       ps_width = lua_or (ps_width b) (ps_width a),
       ps_height = lua_or (ps_height b) (ps_height a),
       ps_margin = lua_or (ps_margin b) (ps_margin a),
       ps_border_width = lua_or (ps_border_width b) (ps_border_width a),
       ps_position = lua_or (ps_position b) (ps_position a) \<rparr>"

text \<open>
  "gather variables together": the preset that backs the arguments is the caller's preset,
  or else \<open>presets.normal\<close>, joined over the defaults.
\<close>

definition effective_preset :: "naughty_state \<Rightarrow> notify_args \<Rightarrow> preset" where
  "effective_preset st args =
     table_join (cfg_defaults st)
       (case a_preset args of Some p \<Rightarrow> p | None \<Rightarrow> cfg_presets_normal st)"

text \<open>
  "replace notification if needed": the id of the new notification and the state after
  the old one, if found, was passed to \<open>naughty.destroy\<close> with the silent reason.
\<close>

definition replace_id :: "nat \<Rightarrow> naughty_state \<Rightarrow> int option \<Rightarrow> error + (int \<times> naughty_state)" where
  "replace_id fuel st replaces_id =
     (case replaces_id of
        Some rid \<Rightarrow>
          (case (case getById st rid of
                   Some obj \<Rightarrow> naughty_destroy fuel st (Some obj) (Some reason_silent)
                 | None \<Rightarrow> Inr (False, st)) of
             Inl e \<Rightarrow> Inl e
           | Inr (_, st1) \<Rightarrow>
               if rid \<le> counter st1 then Inr (rid, st1)
               else Inr (counter st1 + 1, st1\<lparr> counter := counter st1 + 1 \<rparr>))
      | None \<Rightarrow> Inr (counter st + 1, st\<lparr> counter := counter st + 1 \<rparr>))"

text \<open>The loop over the actions: the largest width and the total height of their boxes.\<close>

fun actions_loop ::
  "lua_number \<Rightarrow> (lua_number \<times> lua_number) list \<Rightarrow> lua_number \<times> lua_number \<Rightarrow> lua_number \<times> lua_number" where
  "actions_loop margin [] acc = acc"
| "actions_loop margin ((w, h) # acts) (actions_max_width, actions_total_height) =
     (let height = h + 2 * margin;
          width = w + 2 * margin
      in actions_loop margin acts
           (if actions_max_width < width then width else actions_max_width,
            actions_total_height + height))"

text \<open>
  "calculate the height" and "calculate the width": the size of the popup before it is
  cropped, as (width, height). Arithmetic on an absent margin is a Lua error.
\<close>

definition uncropped_size ::
  "lua_number option \<Rightarrow> lua_number option \<Rightarrow> lua_number option \<Rightarrow> host_measure
     \<Rightarrow> error + (lua_number \<times> lua_number)" where
  "uncropped_size width0 height0 margin0 m =
     (if m_actions m \<noteq> [] \<and> margin0 = None then Inl Lua_error
      else
        let (actions_max_width, actions_total_height) =
              (case margin0 of
                 Some margin \<Rightarrow> actions_loop margin (m_actions m) (0, 0)
               | None \<Rightarrow> (0, 0))
        in
        case (case height0 of
                Some h \<Rightarrow> Some h
              | None \<Rightarrow>
                  map_option
                    (\<lambda>margin.
                       case m_icon m of
                         Some (icon_w, icon_h) \<Rightarrow>
                           if icon_h + 2 * margin > m_text_h m + 2 * margin
                           then icon_h + 2 * margin
                           else m_text_h m + 2 * margin
                       | None \<Rightarrow> m_text_h m + 2 * margin)
                    margin0) of
          None \<Rightarrow> Inl Lua_error
        | Some height1 \<Rightarrow>
            (case (case width0 of
                     Some w \<Rightarrow> Some w
                   | None \<Rightarrow>
                       map_option
                         (\<lambda>margin.
                            m_text_w m
                            + (case m_icon m of
                                 Some (icon_w, icon_h) \<Rightarrow> icon_w + 2 * margin
                               | None \<Rightarrow> 0)
                            + 2 * margin)
                         margin0) of
               None \<Rightarrow> Inl Lua_error
             | Some width1 \<Rightarrow>
                 Inr (if width1 < actions_max_width then actions_max_width else width1,
                      height1 + actions_total_height)))"

text \<open>"crop to workarea size if too big", for one dimension.\<close>

definition crop_to_workarea ::
  "lua_number \<Rightarrow> lua_number option \<Rightarrow> lua_number option \<Rightarrow> lua_number \<Rightarrow> lua_number" where
  "crop_to_workarea area_dim border_width padding v =
     (if v > area_dim - 2 * or0 border_width - 2 * or0 padding
      then area_dim - 2 * or0 border_width - 2 * or0 padding
      else v)"

text \<open>
  The notification object as \<open>notify\<close> has built it when it is about to be inserted: the
  fields set at its creation, the timer of \<open>set_timeout\<close>, the size with the border, and
  the box with its geometry, made visible.
\<close>

definition new_notification ::
  "bool \<Rightarrow> nat \<Rightarrow> position \<Rightarrow> bool \<Rightarrow> lua_number \<Rightarrow> int \<Rightarrow> lua_number option
     \<Rightarrow> lua_number \<Rightarrow> lua_number \<Rightarrow> offset \<Rightarrow> notification" where
  "new_notification susp screen position destroy_cb timeout nid border_width width height off =
     set_timeout susp
       \<lparr> n_screen = screen, n_destroy_cb = destroy_cb, n_timeout = timeout, n_id = nid,
         n_position = position, n_timer = None,
         n_height = height + 2 * or0 border_width,
         n_width = width + 2 * or0 border_width,
         n_idx = off_idx off, box_visible = True,
         box_x = off_x off, box_y = off_y off,
         box_width = width, box_height = height \<rparr>
       timeout"

text \<open>
  "insert the notification to the table": the finished object enters the store under a
  fresh reference and is appended to the list of its position; when notifications are
  suspended its box is hidden again and it is appended to the suspended list as well.
\<close>

definition insert_notification ::
  "naughty_state \<Rightarrow> nat \<Rightarrow> position \<Rightarrow> notification \<Rightarrow> ref \<times> naughty_state" where
  "insert_notification st screen position notification =
     (let r = next_ref st;
          st1 = st\<lparr> objs := (objs st)(r := notification),
                    next_ref := Suc r,
                    notifications :=
                      (notifications st)
                        (screen := (notifications st screen)
                           (position := notifications st screen position @ [r])) \<rparr>
      in if suspended st1
         then (r, st1\<lparr> objs := (objs st1)(r := (objs st1 r)\<lparr> box_visible := False \<rparr>),
                       notifications_suspended := notifications_suspended st1 @ [r] \<rparr>)
         else (r, st1))"

text \<open>
  \<open>naughty.notify\<close>. The result is the new notification, or nothing when the configured
  callback rejects the arguments. The text, markup, icon image, colours and mouse bindings
  are left to the toolkit; the new object enters the store when it is complete.
\<close>

definition notify ::
  "nat \<Rightarrow> naughty_state \<Rightarrow> notify_args \<Rightarrow> host_measure \<Rightarrow> error + (ref option \<times> naughty_state)" where
  "notify fuel st args0 m =
     (case (case cfg_notify_callback st of None \<Rightarrow> Some args0 | Some cb \<Rightarrow> cb args0) of
        None \<Rightarrow> Inr (None, st)
      | Some args \<Rightarrow>
          let preset = effective_preset st args;
              timeout0 = lua_or (a_timeout args) (ps_timeout preset);
              screen0 = lua_or (a_screen args) (ps_screen preset);
              width0 = lua_or (a_width args) (ps_width preset);
              height0 = lua_or (a_height args) (ps_height preset);
              margin0 = lua_or (a_margin args) (ps_margin preset);
              border_width = lua_or (a_border_width args) (ps_border_width preset);
              position0 = lua_or (a_position args) (ps_position preset);
              destroy_cb = a_destroy args
          in
          case replace_id fuel st (a_replaces_id args) of
            Inl e \<Rightarrow> Inl e
          | Inr (nid, st1) \<Rightarrow>
              (case timeout0 of
                 None \<Rightarrow> Inl Lua_error
               | Some timeout \<Rightarrow>
                   (case uncropped_size width0 height0 margin0 m of
                      Inl e \<Rightarrow> Inl e
                    | Inr (width1, height1) \<Rightarrow>
                        (case (screen0, position0) of
                           (Some screen, Some position) \<Rightarrow>
                             if \<not> valid_screen st1 screen then Inl Lua_error
                             else
                               let ws = workarea st1 screen;
                                   width = crop_to_workarea (r_width ws) border_width (cfg_padding st1) width1;
                                   height = crop_to_workarea (r_height ws) border_width (cfg_padding st1) height1;
                                   nheight = height + 2 * or0 border_width;
                                   nwidth = width + 2 * or0 border_width
                               in
                               (case get_offset fuel st1 screen position None (Some nwidth) nheight of
                                  Inl e \<Rightarrow> Inl e
                                | Inr (off, st2) \<Rightarrow>
                                    let notification =
                                          new_notification (suspended st1) screen position destroy_cb
                                            timeout nid border_width width height off;
                                        (r, st3) = insert_notification st2 screen position notification
                                    in Inr (Some r, st3))
                         | _ \<Rightarrow> Inl Lua_error))))"

subsection \<open>What get_offset, arrange and destroy leave alone\<close>

text \<open>
  The relation between the state before and after a call of \<open>get_offset\<close>, \<open>arrange\<close> or
  \<open>naughty.destroy\<close>: the configuration, counter, suspended flag and screens are the same;
  the lists only lose entries; of a notification only the timer, the visibility, the
  position of the box and the index change; a hidden box stays hidden and keeps its
  timer as it is; destroy callbacks are only added, and only for notifications that were
  visible.
\<close>

definition frame :: "naughty_state \<Rightarrow> naughty_state \<Rightarrow> bool" where
  "frame st st' \<longleftrightarrow>
     suspended st' = suspended st \<and> counter st' = counter st \<and> next_ref st' = next_ref st
     \<and> screen_count st' = screen_count st \<and> workarea st' = workarea st
     \<and> cfg_padding st' = cfg_padding st \<and> cfg_spacing st' = cfg_spacing st
     \<and> cfg_defaults st' = cfg_defaults st \<and> cfg_presets_normal st' = cfg_presets_normal st
     \<and> cfg_notify_callback st' = cfg_notify_callback st \<and> global_timeout st' = global_timeout st
     \<and> (\<forall>s p. set (notifications st' s p) \<subseteq> set (notifications st s p))
     \<and> set (notifications_suspended st') \<subseteq> set (notifications_suspended st)
     \<and> (\<forall>r. n_screen (objs st' r) = n_screen (objs st r)
            \<and> n_position (objs st' r) = n_position (objs st r)
            \<and> n_height (objs st' r) = n_height (objs st r)
            \<and> n_width (objs st' r) = n_width (objs st r)
            \<and> n_id (objs st' r) = n_id (objs st r)
            \<and> n_destroy_cb (objs st' r) = n_destroy_cb (objs st r)
            \<and> n_timeout (objs st' r) = n_timeout (objs st r)
            \<and> box_width (objs st' r) = box_width (objs st r)
            \<and> box_height (objs st' r) = box_height (objs st r)
            \<and> (box_visible (objs st' r) \<longrightarrow> box_visible (objs st r))
            \<and> (\<not> box_visible (objs st r) \<longrightarrow> n_timer (objs st' r) = n_timer (objs st r)))
     \<and> (\<exists>ext. destroy_cb_calls st' = destroy_cb_calls st @ ext
            \<and> (\<forall>e \<in> set ext. box_visible (objs st (fst e))))"

subsection \<open>Well-arranged lists\<close>

text \<open>
  What the loop of \<open>existing_height\<close> adds up when the first \<open>k\<close> entries exist: their
  heights, each with the spacing.
\<close>

definition existing_sum :: "(ref \<Rightarrow> notification) \<Rightarrow> lua_number \<Rightarrow> ref list \<Rightarrow> nat \<Rightarrow> lua_number" where
  "existing_sum os spacing lst k = (\<Sum>r\<leftarrow>take k lst. n_height (os r) + spacing)"

text \<open>
  The y that \<open>get_offset\<close> computes for the entry at place \<open>j\<close> (counted from 0) of a list;
  a list fits when no entry lies outside the work area there, and is arranged when every
  entry records its index and is displayed at that y.
\<close>

definition entry_y :: "naughty_state \<Rightarrow> lua_number \<Rightarrow> nat \<Rightarrow> position \<Rightarrow> nat \<Rightarrow> lua_number" where
  "entry_y st pad scr p j =
     get_offset_y (workarea st scr) pad p
       (n_height (objs st (notifications st scr p ! j)))
       (existing_sum (objs st) (cfg_spacing st) (notifications st scr p) j)"

definition fits :: "naughty_state \<Rightarrow> lua_number \<Rightarrow> nat \<Rightarrow> position \<Rightarrow> bool" where
  "fits st pad scr p \<longleftrightarrow>
     (\<forall>j < length (notifications st scr p).
        \<not> outside_workarea (workarea st scr) (entry_y st pad scr p j)
            (n_height (objs st (notifications st scr p ! j))))"

definition arranged :: "naughty_state \<Rightarrow> lua_number \<Rightarrow> nat \<Rightarrow> position \<Rightarrow> bool" where
  "arranged st pad scr p \<longleftrightarrow>
     (\<forall>j < length (notifications st scr p).
        n_idx (objs st (notifications st scr p ! j)) = int j + 1
        \<and> box_y (objs st (notifications st scr p ! j)) = entry_y st pad scr p j)"

text \<open>
  Two states with the same lists, screens, configuration and callback record, whose
  notifications differ at most in the position of the box and the recorded index.
\<close>

definition same_lists :: "naughty_state \<Rightarrow> naughty_state \<Rightarrow> bool" where
  "same_lists st st' \<longleftrightarrow>
     notifications st' = notifications st \<and> notifications_suspended st' = notifications_suspended st
     \<and> workarea st' = workarea st \<and> screen_count st' = screen_count st
     \<and> cfg_padding st' = cfg_padding st \<and> cfg_spacing st' = cfg_spacing st
     \<and> destroy_cb_calls st' = destroy_cb_calls st
     \<and> (\<forall>r. n_height (objs st' r) = n_height (objs st r)
            \<and> n_width (objs st' r) = n_width (objs st r)
            \<and> n_position (objs st' r) = n_position (objs st r)
            \<and> n_timer (objs st' r) = n_timer (objs st r)
            \<and> box_visible (objs st' r) = box_visible (objs st r))"

subsection \<open>The state after loading, and example states\<close>

text \<open>
  \<open>naughty.config.defaults\<close> and the state the module builds when it is loaded, for a host
  with the given screens. The strings \<open>"5"\<close> and \<open>"1"\<close> of the margin and border width
  are the numbers Lua's arithmetic makes of them.
\<close>

definition empty_preset :: preset where
  "empty_preset = \<lparr> ps_timeout = None, ps_screen = None, ps_width = None, ps_height = None,
                     ps_margin = None, ps_border_width = None, ps_position = None \<rparr>"

definition naughty_defaults :: preset where
  "naughty_defaults = \<lparr> ps_timeout = Some 5, ps_screen = Some 1, ps_width = None, ps_height = None,
                        ps_margin = Some 5, ps_border_width = Some 1, ps_position = Some Top_right \<rparr>"

definition no_notification :: notification where
  "no_notification = \<lparr> n_screen = 0, n_destroy_cb = False, n_timeout = 0, n_id = 0,
      n_position = Top_right, n_timer = None, n_height = 0, n_width = 0, n_idx = 0,
      box_visible = False, box_x = 0, box_y = 0, box_width = 0, box_height = 0 \<rparr>"

definition initial_state :: "nat \<Rightarrow> (nat \<Rightarrow> rect) \<Rightarrow> naughty_state" where
  "initial_state count wa =
     \<lparr> cfg_padding = Some 4, cfg_spacing = 1, cfg_defaults = naughty_defaults,
       cfg_presets_normal = empty_preset, cfg_notify_callback = None,
       counter = 1, suspended = False,
       notifications = (\<lambda>s p. []), notifications_suspended = [],
       objs = (\<lambda>r. no_notification), next_ref = 0,
       screen_count = count, workarea = wa,
       global_timeout = None, destroy_cb_calls = [] \<rparr>"

definition no_args :: notify_args where
  "no_args = \<lparr> a_timeout = None, a_screen = None, a_width = None, a_height = None, a_margin = None,
      a_border_width = None, a_position = None, a_preset = None, a_replaces_id = None, a_destroy = False \<rparr>"

definition text_only :: "lua_number \<Rightarrow> lua_number \<Rightarrow> host_measure" where
  "text_only w h = \<lparr> m_text_w = w, m_text_h = h, m_actions = [], m_icon = None \<rparr>"

definition screen_800x600 :: "nat \<Rightarrow> rect" where
  "screen_800x600 = (\<lambda>s. \<lparr> r_x = 100, r_y = 20, r_width = 800, r_height = 600 \<rparr>)"

text \<open>
  A popup 80 high at the top right of screen 1, on a screen whose work area has since
  shrunk to a height of 60.
\<close>

definition popup_80 :: notification where
  "popup_80 = \<lparr> n_screen = 1, n_destroy_cb = False, n_timeout = 0, n_id = 2,
      n_position = Top_right, n_timer = None, n_height = 80, n_width = 200, n_idx = 1,
      box_visible = True, box_x = 696, box_y = 24, box_width = 198, box_height = 78 \<rparr>"

definition shrunk_state :: naughty_state where
  "shrunk_state =
     (initial_state 1 (\<lambda>s. \<lparr> r_x = 100, r_y = 20, r_width = 800, r_height = 60 \<rparr>))
       \<lparr> counter := 2, next_ref := 1,
         notifications := (\<lambda>s p. if s = 1 \<and> p = Top_right then [0] else []),
         objs := (\<lambda>r. if r = 0 then popup_80 else no_notification) \<rparr>"

text \<open>
  The state after one call \<open>notify {}\<close> whose text fits into 180 by 30 (the popup has a
  destroy callback), the same when the call was made while notifications were suspended,
  and the arguments that ask to replace a notification.
\<close>

definition shown_popup :: notification where
  "shown_popup = \<lparr> n_screen = 1, n_destroy_cb = True, n_timeout = 5, n_id = 2,
      n_position = Top_right, n_timer = Some \<lparr> t_timeout = 5, t_started = True \<rparr>,
      n_height = 42, n_width = 192, n_idx = 1,
      box_visible = True, box_x = 704, box_y = 24, box_width = 190, box_height = 40 \<rparr>"

definition one_popup_state :: naughty_state where
  "one_popup_state =
     (initial_state 1 screen_800x600)
       \<lparr> counter := 2, next_ref := 1,
         notifications := (\<lambda>s p. if s = 1 \<and> p = Top_right then [0] else []),
         objs := (\<lambda>r. if r = 0 then shown_popup else no_notification) \<rparr>"

definition hidden_popup_state :: naughty_state where
  "hidden_popup_state =
     one_popup_state
       \<lparr> suspended := True, notifications_suspended := [0],
         objs := (\<lambda>r. if r = 0
                      then shown_popup\<lparr> box_visible := False,
                                         n_timer := Some \<lparr> t_timeout = 5, t_started = False \<rparr> \<rparr>
                      else no_notification) \<rparr>"

definition replace_args :: "int \<Rightarrow> notify_args" where
  "replace_args rid = no_args\<lparr> a_replaces_id := Some rid \<rparr>"

text \<open>
  Three popups 42 high at the top right of screen 1, each recorded and displayed where
  \<open>notify\<close> puts them.
\<close>

definition popup_at :: "position \<Rightarrow> int \<Rightarrow> lua_number \<Rightarrow> notification" where
  "popup_at p i y = shown_popup\<lparr> n_position := p, n_idx := i, n_id := i + 1, box_y := y \<rparr>"

definition three_top_state :: naughty_state where
  "three_top_state =
     (initial_state 1 screen_800x600)
       \<lparr> counter := 4, next_ref := 3,
         notifications := (\<lambda>s p. if s = 1 \<and> p = Top_right then [0, 1, 2] else []),
         objs := (\<lambda>r. if r = 0 then popup_at Top_right 1 24
                      else if r = 1 then popup_at Top_right 2 67
                      else if r = 2 then popup_at Top_right 3 110
                      else no_notification) \<rparr>"

text \<open>
  A screen whose work area is 100 high, and the state reached on it through the module's
  own operations by \<open>suspend()\<close>, three calls \<open>notify {}\<close> whose text fits into 180 by
  30, and \<open>resume()\<close>.
\<close>

definition screen_800x100 :: "nat \<Rightarrow> rect" where
  "screen_800x100 = (\<lambda>s. \<lparr> r_x = 0, r_y = 0, r_width = 800, r_height = 100 \<rparr>)"

definition stale_index_state :: "error + naughty_state" where
  "stale_index_state =
     (case notify 3 (naughty_suspend (initial_state 1 screen_800x100)) no_args (text_only 180 30) of
        Inl e \<Rightarrow> Inl e
      | Inr (_, s1) \<Rightarrow>
          (case notify 3 s1 no_args (text_only 180 30) of
             Inl e \<Rightarrow> Inl e
           | Inr (_, s2) \<Rightarrow>
               (case notify 3 s2 no_args (text_only 180 30) of
                  Inl e \<Rightarrow> Inl e
                | Inr (_, s3) \<Rightarrow> Inr (naughty_resume s3))))"

section \<open>Properties of the stacking layout\<close>

lemma xterm_loop_other:
  "c \<notin> set cs \<Longrightarrow> xterm_loop wa h k cs geos c = geos c"
  by (induction cs arbitrary: k geos) (auto simp: Let_def)

lemma xterm_loop_nth:
  "distinct cs \<Longrightarrow> j < length cs \<Longrightarrow>
   xterm_loop wa h k cs geos (cs ! j) =
     Some \<lparr> r_x = r_x wa, r_y = h * of_int (k - 1 + int j) + r_y wa,
            r_width = r_width wa, r_height = h \<rparr>"
proof (induction cs arbitrary: k geos j)
  case Nil
  then show ?case by simp
next
  case (Cons c cs)
  show ?case
  proof (cases j)
    case 0
    with Cons.prems show ?thesis
      by (simp add: Let_def xterm_loop_other)
  next
    case (Suc i)
    with Cons.prems have "i < length cs" "distinct cs" by simp_all
    from Cons.IH [OF this(2) this(1), of "k + 1"] Suc show ?thesis
      by (simp add: Let_def algebra_simps)
  qed
qed

text \<open>
  C1. For a non-empty list of N pairwise different clients, the arrange operation gives
  client k (counted from 0) the full work-area width, the height ceil(wa.height / N), the
  work area's x, and y = wa.y + k * ceil(wa.height / N); for an empty list it leaves the
  parameter table, and so every geometry, as it was.
\<close>

theorem xterm_arrange_geometries:
  "(p_clients p = [] \<longrightarrow> xterm_arrange p = p) \<and>
   (distinct (p_clients p) \<longrightarrow>
      (\<forall>k < length (p_clients p).
         p_geometries (xterm_arrange p) (p_clients p ! k) =
           Some \<lparr> r_x = r_x (p_workarea p),
                  r_y = r_y (p_workarea p)
                        + of_nat k * of_int \<lceil>r_height (p_workarea p) / of_nat (length (p_clients p))\<rceil>,
                  r_width = r_width (p_workarea p),
                  r_height = of_int \<lceil>r_height (p_workarea p) / of_nat (length (p_clients p))\<rceil> \<rparr>))"
proof (intro conjI impI allI)
  assume "p_clients p = []"
  then show "xterm_arrange p = p"
    by (simp add: xterm_arrange_def do_xterm_def)
next
  fix k
  assume d: "distinct (p_clients p)" and k: "k < length (p_clients p)"
  then have "p_clients p \<noteq> []" by auto
  with xterm_loop_nth [OF d k] show
    "p_geometries (xterm_arrange p) (p_clients p ! k) =
       Some \<lparr> r_x = r_x (p_workarea p),
              r_y = r_y (p_workarea p)
                    + of_nat k * of_int \<lceil>r_height (p_workarea p) / of_nat (length (p_clients p))\<rceil>,
              r_width = r_width (p_workarea p),
              r_height = of_int \<lceil>r_height (p_workarea p) / of_nat (length (p_clients p))\<rceil> \<rparr>"
    by (simp add: xterm_arrange_def do_xterm_def Let_def algebra_simps)
qed

theorem xterm_arrange_geometries_witness:
  "xterm_arrange \<lparr> p_workarea = \<lparr> r_x = 0, r_y = 19, r_width = 1280, r_height = 1000 \<rparr>,
                   p_clients = [], p_geometries = Map.empty \<rparr>
     = \<lparr> p_workarea = \<lparr> r_x = 0, r_y = 19, r_width = 1280, r_height = 1000 \<rparr>,
         p_clients = ([] :: nat list), p_geometries = Map.empty \<rparr>
   \<and> distinct [10, 20, 30 :: nat]
   \<and> p_geometries
        (xterm_arrange \<lparr> p_workarea = \<lparr> r_x = 0, r_y = 19, r_width = 1280, r_height = 1000 \<rparr>,
                         p_clients = [10, 20, 30 :: nat], p_geometries = Map.empty \<rparr>) 30
      = Some \<lparr> r_x = 0, r_y = 687, r_width = 1280, r_height = 334 \<rparr>"
proof -
  let ?wa = "\<lparr> r_x = 0, r_y = 19, r_width = 1280, r_height = 1000 \<rparr>"
  let ?p0 = "\<lparr> p_workarea = ?wa, p_clients = ([] :: nat list), p_geometries = Map.empty \<rparr>"
  let ?p3 = "\<lparr> p_workarea = ?wa, p_clients = [10, 20, 30 :: nat], p_geometries = Map.empty \<rparr>"
  have c: "\<lceil>(1000 :: rat) / 3\<rceil> = 334" by code_simp
  have a: "xterm_arrange ?p0 = ?p0"
    using xterm_arrange_geometries [of ?p0] by simp
  have d: "distinct (p_clients ?p3)" by simp
  have "2 < length (p_clients ?p3)" by simp
  with xterm_arrange_geometries [of ?p3] d
  have "p_geometries (xterm_arrange ?p3) (p_clients ?p3 ! 2) =
          Some \<lparr> r_x = r_x (p_workarea ?p3),
                 r_y = r_y (p_workarea ?p3)
                       + of_nat 2 * of_int \<lceil>r_height (p_workarea ?p3) / of_nat (length (p_clients ?p3))\<rceil>,
                 r_width = r_width (p_workarea ?p3),
                 r_height = of_int \<lceil>r_height (p_workarea ?p3) / of_nat (length (p_clients ?p3))\<rceil> \<rparr>"
    by blast
  then have b: "p_geometries (xterm_arrange ?p3) 30 = Some \<lparr> r_x = 0, r_y = 687, r_width = 1280, r_height = 334 \<rparr>"
    by (simp add: c)
  from a b show ?thesis by simp
qed

section \<open>Properties of the keyboard layout bridge\<close>

text \<open>
  C8. The handler emits \<open>xkb::map_changed\<close> with no payload exactly when the sub-type is
  new-keyboard-notify with the keycodes bit set in its changed mask, or names-notify; it
  emits \<open>xkb::group_changed\<close> with the event's group number as the only payload exactly
  when the sub-type is state-notify with the group bit set; otherwise it emits nothing.
\<close>

theorem event_handle_xkb_notify_cases:
  "event_handle_xkb_notify event =
     (if (ev_pad0 event = XCB_XKB_NEW_KEYBOARD_NOTIFY
            \<and> ev_nkn_changed event AND XCB_XKB_NKN_DETAIL_KEYCODES \<noteq> 0)
          \<or> ev_pad0 event = XCB_XKB_NAMES_NOTIFY
      then [\<lparr> sig_name = ''xkb::map_changed'', sig_args = [] \<rparr>]
      else if ev_pad0 event = XCB_XKB_STATE_NOTIFY
                \<and> ev_sn_changed event AND XCB_XKB_STATE_PART_GROUP_STATE \<noteq> 0
      then [\<lparr> sig_name = ''xkb::group_changed'',
              sig_args = [of_nat (unat (ev_sn_group event))] \<rparr>]
      else [])"
  by (simp add: event_handle_xkb_notify_def XCB_XKB_NEW_KEYBOARD_NOTIFY_def
      XCB_XKB_NAMES_NOTIFY_def XCB_XKB_STATE_NOTIFY_def)

theorem event_handle_xkb_notify_cases_witness:
  "event_handle_xkb_notify \<lparr> ev_pad0 = 0, ev_nkn_changed = 3, ev_sn_changed = 0, ev_sn_group = 0 \<rparr>
     = [\<lparr> sig_name = ''xkb::map_changed'', sig_args = [] \<rparr>]
   \<and> event_handle_xkb_notify \<lparr> ev_pad0 = 0, ev_nkn_changed = 2, ev_sn_changed = 0, ev_sn_group = 0 \<rparr> = []
   \<and> event_handle_xkb_notify \<lparr> ev_pad0 = 6, ev_nkn_changed = 0, ev_sn_changed = 0, ev_sn_group = 0 \<rparr>
     = [\<lparr> sig_name = ''xkb::map_changed'', sig_args = [] \<rparr>]
   \<and> event_handle_xkb_notify \<lparr> ev_pad0 = 2, ev_nkn_changed = 0, ev_sn_changed = 16, ev_sn_group = 1 \<rparr>
     = [\<lparr> sig_name = ''xkb::group_changed'', sig_args = [1] \<rparr>]
   \<and> event_handle_xkb_notify \<lparr> ev_pad0 = 2, ev_nkn_changed = 0, ev_sn_changed = 8, ev_sn_group = 1 \<rparr> = []
   \<and> event_handle_xkb_notify \<lparr> ev_pad0 = 1, ev_nkn_changed = 1, ev_sn_changed = 16, ev_sn_group = 1 \<rparr> = []"
  by (simp add: event_handle_xkb_notify_cases XCB_XKB_NEW_KEYBOARD_NOTIFY_def
      XCB_XKB_NAMES_NOTIFY_def XCB_XKB_STATE_NOTIFY_def XCB_XKB_NKN_DETAIL_KEYCODES_def
      XCB_XKB_STATE_PART_GROUP_STATE_def)

text \<open>
  C9. When the state query has no reply, get_layout pushes nothing and reports zero
  values; when the names query or the atom-name query has no reply, get_group_names
  pushes nothing, reports zero values and logs the warning of the lookup that failed.
  When the queries succeed, get_layout returns the group as one number and
  get_group_names returns the text of the symbols atom as one string, without warnings.
\<close>

theorem xkb_queries_degrade:
  "luaA_xkb_get_layout_group None = \<lparr> ret_count = 0, ret_pushed = [], ret_warnings = [] \<rparr>
   \<and> luaA_xkb_get_layout_group (Some sr)
       = \<lparr> ret_count = 1, ret_pushed = [LNumber (of_nat (unat (sr_group sr)))], ret_warnings = [] \<rparr>
   \<and> luaA_xkb_get_group_names None atoms
       = \<lparr> ret_count = 0, ret_pushed = [], ret_warnings = [''Failed to get xkb symbols name''] \<rparr>
   \<and> (atoms (nr_symbolsName nr) = None \<longrightarrow>
        luaA_xkb_get_group_names (Some nr) atoms
          = \<lparr> ret_count = 0, ret_pushed = [], ret_warnings = [''Failed to get atom symbols name''] \<rparr>)
   \<and> (\<forall>name. atoms (nr_symbolsName nr) = Some name \<longrightarrow>
        luaA_xkb_get_group_names (Some nr) atoms
          = \<lparr> ret_count = 1, ret_pushed = [LString name], ret_warnings = [] \<rparr>)"
  by (simp add: luaA_xkb_get_layout_group_def luaA_xkb_get_group_names_def)

theorem xkb_queries_degrade_witness:
  "luaA_xkb_get_group_names (Some \<lparr> nr_symbolsName = 7 \<rparr>) (\<lambda>a. None)
     = \<lparr> ret_count = 0, ret_pushed = [], ret_warnings = [''Failed to get atom symbols name''] \<rparr>
   \<and> luaA_xkb_get_group_names (Some \<lparr> nr_symbolsName = 7 \<rparr>) (\<lambda>a. if a = 7 then Some ''pc+us'' else None)
     = \<lparr> ret_count = 1, ret_pushed = [LString ''pc+us''], ret_warnings = [] \<rparr>"
proof -
  have a: "luaA_xkb_get_group_names (Some \<lparr> nr_symbolsName = 7 \<rparr>) (\<lambda>a. None)
     = \<lparr> ret_count = 0, ret_pushed = [], ret_warnings = [''Failed to get atom symbols name''] \<rparr>"
    using xkb_queries_degrade [of undefined "\<lambda>a. None" "\<lparr> nr_symbolsName = 7 \<rparr>"] by simp
  have b: "luaA_xkb_get_group_names (Some \<lparr> nr_symbolsName = 7 \<rparr>) (\<lambda>a. if a = 7 then Some ''pc+us'' else None)
     = \<lparr> ret_count = 1, ret_pushed = [LString ''pc+us''], ret_warnings = [] \<rparr>"
    using xkb_queries_degrade [of undefined "\<lambda>a. if a = 7 then Some ''pc+us'' else None" "\<lparr> nr_symbolsName = 7 \<rparr>"]
    by simp
  from a b show ?thesis by simp
qed

section \<open>Properties of the notification popup manager\<close>

subsection \<open>The frame of get_offset, arrange and destroy\<close>

lemma frame_refl: "frame st st"
  by (simp add: frame_def)

lemma frame_trans:
  assumes ab: "frame a b" and bc: "frame b c"
  shows "frame a c"
proof -
  from ab obtain e1 where e1: "destroy_cb_calls b = destroy_cb_calls a @ e1"
    "\<forall>e \<in> set e1. box_visible (objs a (fst e))"
    unfolding frame_def by blast
  from bc obtain e2 where e2: "destroy_cb_calls c = destroy_cb_calls b @ e2"
    "\<forall>e \<in> set e2. box_visible (objs b (fst e))"
    unfolding frame_def by blast
  from ab have vis: "\<And>r. box_visible (objs b r) \<Longrightarrow> box_visible (objs a r)"
    by (simp add: frame_def)
  have "destroy_cb_calls c = destroy_cb_calls a @ (e1 @ e2)
        \<and> (\<forall>e \<in> set (e1 @ e2). box_visible (objs a (fst e)))"
    using e1 e2 vis by auto
  then have log: "\<exists>ext. destroy_cb_calls c = destroy_cb_calls a @ ext
        \<and> (\<forall>e \<in> set ext. box_visible (objs a (fst e)))"
    by blast
  have lists: "\<forall>s p. set (notifications c s p) \<subseteq> set (notifications a s p)"
    using ab bc unfolding frame_def by blast
  have susp: "set (notifications_suspended c) \<subseteq> set (notifications_suspended a)"
    using ab bc unfolding frame_def by blast
  from ab have ab_t: "\<And>r. \<not> box_visible (objs a r) \<Longrightarrow> n_timer (objs b r) = n_timer (objs a r)"
    by (simp add: frame_def)
  from bc have bc_v: "\<And>r. box_visible (objs c r) \<Longrightarrow> box_visible (objs b r)"
    and bc_t: "\<And>r. \<not> box_visible (objs b r) \<Longrightarrow> n_timer (objs c r) = n_timer (objs b r)"
    by (simp_all add: frame_def)
  have v: "\<forall>r. box_visible (objs c r) \<longrightarrow> box_visible (objs a r)"
    using vis bc_v by blast
  have t: "\<forall>r. \<not> box_visible (objs a r) \<longrightarrow> n_timer (objs c r) = n_timer (objs a r)"
    using vis ab_t bc_t by metis
  show ?thesis
    unfolding frame_def
    using log lists susp v t ab bc
    by (simp add: frame_def)
qed

lemma set_table_remove: "set (table_remove xs i) \<subseteq> set xs"
  by (auto simp: table_remove_def dest: in_set_takeD in_set_dropD)

lemma frame_destroy_remove:
  "box_visible (objs st r) \<Longrightarrow> frame st (destroy_remove st r)"
  using set_table_remove [of "notifications st (n_screen (objs st r)) (n_position (objs st r))" "n_idx (objs st r)"]
    set_remove1_subset [of r "notifications_suspended st"]
  by (auto simp: frame_def destroy_remove_def Let_def stop_timer_def split: option.splits)

lemma frame_log:
  assumes f: "frame st st4" and v: "box_visible (objs st r)"
  shows "frame st (st4\<lparr> destroy_cb_calls := destroy_cb_calls st4 @ [(r, v')] \<rparr>)"
proof -
  from f obtain ext where e: "destroy_cb_calls st4 = destroy_cb_calls st @ ext"
    "\<forall>e \<in> set ext. box_visible (objs st (fst e))"
    unfolding frame_def by blast
  have "destroy_cb_calls st4 @ [(r, v')] = destroy_cb_calls st @ (ext @ [(r, v')])
        \<and> (\<forall>e \<in> set (ext @ [(r, v')]). box_visible (objs st (fst e)))"
    using e v by auto
  then have "\<exists>ext'. destroy_cb_calls st4 @ [(r, v')] = destroy_cb_calls st @ ext'
        \<and> (\<forall>e \<in> set ext'. box_visible (objs st (fst e)))"
    by blast
  with f show ?thesis
    by (simp add: frame_def)
qed

lemma frame_destroy_callback:
  "frame st st4 \<Longrightarrow> box_visible (objs st r) \<Longrightarrow> frame st (destroy_callback st4 r reason)"
  by (simp add: destroy_callback_def frame_log)

lemma frame_apply_offset: "frame st (apply_offset st r off)"
  by (simp add: frame_def apply_offset_def)

lemma frame_all:
  "(\<forall>st scr pos idx w h off st'. get_offset fuel st scr pos idx w h = Inr (off, st') \<longrightarrow> frame st st')
   \<and> (\<forall>st n reason b st'. naughty_destroy fuel st n reason = Inr (b, st') \<longrightarrow> frame st st')
   \<and> (\<forall>st scr st'. arrange fuel st scr = Inr st' \<longrightarrow> frame st st')
   \<and> (\<forall>st scr ps st'. arrange_positions fuel st scr ps = Inr st' \<longrightarrow> frame st st')
   \<and> (\<forall>st scr p i st'. arrange_list fuel st scr p i = Inr st' \<longrightarrow> frame st st')"
proof (induction fuel)
  case 0
  show ?case by simp
next
  case (Suc n)
  note ih_go = Suc [THEN conjunct1, rule_format]
  note ih_de = Suc [THEN conjunct2, THEN conjunct1, rule_format]
  note ih_ar = Suc [THEN conjunct2, THEN conjunct2, THEN conjunct1, rule_format]
  note ih_ap = Suc [THEN conjunct2, THEN conjunct2, THEN conjunct2, THEN conjunct1, rule_format]
  note ih_al = Suc [THEN conjunct2, THEN conjunct2, THEN conjunct2, THEN conjunct2, rule_format]
  show ?case
  proof (intro conjI allI impI)
    fix st scr pos idx w h off st'
    assume "get_offset (Suc n) st scr pos idx w h = Inr (off, st')"
    then show "frame st st'"
      by (auto simp: frame_refl split: if_splits sum.splits prod.splits
          intro: frame_trans [OF ih_de ih_go])
  next
    fix st nt reason b st'
    assume a: "naughty_destroy (Suc n) st nt reason = Inr (b, st')"
    show "frame st st'"
    proof (cases nt)
      case None
      with a show ?thesis by (simp add: frame_refl)
    next
      case (Some r)
      show ?thesis
      proof (cases "box_visible (objs st r)")
        case False
        with a Some show ?thesis by (simp add: frame_refl)
      next
        case True
        from a Some True obtain st4
          where ar: "arrange n (destroy_remove st r) (n_screen (objs st r)) = Inr st4"
            and st': "st' = destroy_callback st4 r reason"
          by (auto split: if_splits sum.splits)
        have "frame st st4"
          by (rule frame_trans [OF frame_destroy_remove [OF True] ih_ar [OF ar]])
        then show ?thesis
          unfolding st' using True by (rule frame_destroy_callback)
      qed
    qed
  next
    fix st scr st'
    assume "arrange (Suc n) st scr = Inr st'"
    then show "frame st st'"
      by (auto split: if_splits intro: ih_ap)
  next
    fix st scr ps st'
    assume "arrange_positions (Suc n) st scr ps = Inr st'"
    then show "frame st st'"
      by (cases ps) (auto simp: frame_refl split: sum.splits intro: frame_trans [OF ih_al ih_ap])
  next
    fix st scr p i st'
    assume "arrange_list (Suc n) st scr p i = Inr st'"
    then show "frame st st'"
      by (auto simp: frame_refl split: option.splits sum.splits prod.splits
          intro: frame_trans [OF ih_go frame_trans [OF frame_apply_offset ih_al]])
  qed
qed

lemmas frame_get_offset = frame_all [THEN conjunct1, rule_format]
lemmas frame_naughty_destroy = frame_all [THEN conjunct2, THEN conjunct1, rule_format]
lemmas frame_arrange = frame_all [THEN conjunct2, THEN conjunct2, THEN conjunct1, rule_format]

lemma replace_id_frame:
  assumes "replace_id fuel st rid = Inr (nid, st1)"
  shows "\<exists>st0 c. frame st st0 \<and> st1 = st0\<lparr> counter := c \<rparr>"
proof (cases rid)
  case None
  with assms have "st1 = st\<lparr> counter := counter st1 \<rparr>"
    by (auto simp: replace_id_def)
  with frame_refl [of st] show ?thesis by blast
next
  case (Some i)
  show ?thesis
  proof (cases "getById st i")
    case None
    with assms Some have "st1 = st\<lparr> counter := counter st1 \<rparr>"
      by (auto simp: replace_id_def split: if_splits)
    with frame_refl [of st] show ?thesis by blast
  next
    case (Some obj)
    with assms \<open>rid = Some i\<close> obtain b st0
      where d: "naughty_destroy fuel st (Some obj) (Some reason_silent) = Inr (b, st0)"
        and e: "st1 = st0\<lparr> counter := counter st1 \<rparr>"
      by (auto simp: replace_id_def split: sum.splits if_splits)
    from frame_naughty_destroy [OF d] e show ?thesis by blast
  qed
qed

subsection \<open>The steps of a call of notify that returns a notification\<close>

lemma notify_returns:
  assumes n: "notify fuel st args0 m = Inr (Some r, st')"
    and cb: "(case cfg_notify_callback st of None \<Rightarrow> Some args0 | Some cb \<Rightarrow> cb args0) = Some args"
  obtains nid st1 timeout w1 h1 screen position off st2 where
    "replace_id fuel st (a_replaces_id args) = Inr (nid, st1)"
    "lua_or (a_timeout args) (ps_timeout (effective_preset st args)) = Some timeout"
    "uncropped_size (lua_or (a_width args) (ps_width (effective_preset st args)))
       (lua_or (a_height args) (ps_height (effective_preset st args)))
       (lua_or (a_margin args) (ps_margin (effective_preset st args))) m = Inr (w1, h1)"
    "lua_or (a_screen args) (ps_screen (effective_preset st args)) = Some screen"
    "lua_or (a_position args) (ps_position (effective_preset st args)) = Some position"
    "get_offset fuel st1 screen position None
       (Some (crop_to_workarea (r_width (workarea st1 screen))
                (lua_or (a_border_width args) (ps_border_width (effective_preset st args)))
                (cfg_padding st1) w1
              + 2 * or0 (lua_or (a_border_width args) (ps_border_width (effective_preset st args)))))
       (crop_to_workarea (r_height (workarea st1 screen))
          (lua_or (a_border_width args) (ps_border_width (effective_preset st args)))
          (cfg_padding st1) h1
        + 2 * or0 (lua_or (a_border_width args) (ps_border_width (effective_preset st args))))
     = Inr (off, st2)"
    "(r, st') =
       insert_notification st2 screen position
         (new_notification (suspended st1) screen position (a_destroy args) timeout nid
            (lua_or (a_border_width args) (ps_border_width (effective_preset st args)))
            (crop_to_workarea (r_width (workarea st1 screen))
               (lua_or (a_border_width args) (ps_border_width (effective_preset st args)))
               (cfg_padding st1) w1)
            (crop_to_workarea (r_height (workarea st1 screen))
               (lua_or (a_border_width args) (ps_border_width (effective_preset st args)))
               (cfg_padding st1) h1)
            off)"
proof -
  let ?ps = "effective_preset st args"
  from n cb obtain nid st1 where rep: "replace_id fuel st (a_replaces_id args) = Inr (nid, st1)"
    by (auto simp: notify_def Let_def split: sum.splits)
  from n cb rep obtain timeout where t: "lua_or (a_timeout args) (ps_timeout ?ps) = Some timeout"
    by (auto simp: notify_def Let_def split: option.splits)
  from n cb rep t obtain w1 h1 where u: "uncropped_size (lua_or (a_width args) (ps_width ?ps))
       (lua_or (a_height args) (ps_height ?ps)) (lua_or (a_margin args) (ps_margin ?ps)) m = Inr (w1, h1)"
    by (auto simp: notify_def Let_def split: sum.splits)
  from n cb rep t u obtain screen position where sp:
    "lua_or (a_screen args) (ps_screen ?ps) = Some screen"
    "lua_or (a_position args) (ps_position ?ps) = Some position"
    by (auto simp: notify_def Let_def split: option.splits)
  from n cb rep t u sp that show thesis
    by (auto simp: notify_def Let_def split: sum.splits if_splits prod.splits)
qed

subsection \<open>Horizontal placement\<close>

text \<open>
  C4. On a screen whose work area starts at x = 100 and is 800 wide, a popup 200 wide at
  the top middle is placed at x = 300, which is 800 / 2 - 200 / 2: the work area's x is
  not added, and the centre of the work area would be x = 400.
\<close>

theorem get_offset_middle_omits_workarea_x:
  "get_offset 1 (initial_state 1 screen_800x600) 1 Top_middle None (Some 200) 50
     = Inr (\<lparr> off_x = 300, off_y = 24, off_idx = 1 \<rparr>, initial_state 1 screen_800x600)
   \<and> r_x (workarea (initial_state 1 screen_800x600) 1)
       + (r_width (workarea (initial_state 1 screen_800x600) 1) - 200) / 2 = 400"
  by (simp add: initial_state_def screen_800x600_def valid_screen_def get_offset_calc_def
      get_offset_x_def get_offset_y_def outside_workarea_def)

subsection \<open>Destroying a notification whose box is hidden\<close>

lemma notify_suspended_invisible:
  assumes n: "notify fuel st args0 m = Inr (Some r, st')" and s: "suspended st"
  shows "\<not> box_visible (objs st' r)"
proof -
  from n obtain args where
    cb: "(case cfg_notify_callback st of None \<Rightarrow> Some args0 | Some cb \<Rightarrow> cb args0) = Some args"
    by (cases "case cfg_notify_callback st of None \<Rightarrow> Some args0 | Some cb \<Rightarrow> cb args0")
      (auto simp: notify_def)
  from n cb obtain nid st1 screen position off st2 w h nt where
    rep: "replace_id fuel st (a_replaces_id args) = Inr (nid, st1)"
    and go: "get_offset fuel st1 screen position None w h = Inr (off, st2)"
    and ins: "(r, st') = insert_notification st2 screen position nt"
    by (rule notify_returns) blast
  from replace_id_frame [OF rep] s have "suspended st1" by (auto simp: frame_def)
  with frame_get_offset [OF go] have "suspended st2" by (simp add: frame_def)
  with ins show ?thesis
    by (simp add: insert_notification_def Let_def)
qed

text \<open>
  For a notification whose box is not visible, \<open>naughty.destroy\<close> returns nil and the
  state after the call is the state before it: the lists, the suspended list, every timer
  and the record of destroy callbacks are the same. A notification made while notifications
  are suspended has a hidden box, so this holds for it.
\<close>

lemma destroy_hidden_unchanged:
  "(\<not> box_visible (objs st r) \<longrightarrow> naughty_destroy (Suc fuel) st (Some r) reason = Inr (False, st))
   \<and> (suspended st \<and> notify fuel' st args m = Inr (Some r', st') \<longrightarrow>
        \<not> box_visible (objs st' r')
        \<and> naughty_destroy (Suc fuel) st' (Some r') reason = Inr (False, st'))"
proof (intro conjI impI)
  assume "\<not> box_visible (objs st r)"
  then show "naughty_destroy (Suc fuel) st (Some r) reason = Inr (False, st)" by simp
next
  assume a: "suspended st \<and> notify fuel' st args m = Inr (Some r', st')"
  then show i: "\<not> box_visible (objs st' r')" using notify_suspended_invisible by blast
  then show "naughty_destroy (Suc fuel) st' (Some r') reason = Inr (False, st')" by simp
qed

text \<open>
  C10 at a failing input. The claim ends: only a notification with a visible widget is
  ever removed. In \<open>stale_index_state\<close> the list at the top right is \<open>[0, 1, 2]\<close>, all
  three popups are visible, and the notifications 1 and 2 both record the index 2.
  Destroying notification 2 hides its box and takes the entry at index 2, notification 1,
  out of the list, so the hidden notification 2 stays listed. Destroying the still visible
  notification 1 then takes the entry at its recorded index 2 out of the list again: the
  entry removed is notification 2, whose widget is not visible.
\<close>

theorem destroy_removes_hidden_entry:
  "(case stale_index_state of
      Inr s \<Rightarrow>
        (case naughty_destroy 20 s (Some 2) (Some reason_dismissedByUser) of
           Inr (True, s') \<Rightarrow>
             notifications s' 1 Top_right = [0, 2]
             \<and> \<not> box_visible (objs s' 2)
             \<and> box_visible (objs s' 1) \<and> n_idx (objs s' 1) = 2
             \<and> (case naughty_destroy 20 s' (Some 1) (Some reason_dismissedByUser) of
                  Inr (True, s'') \<Rightarrow> notifications s'' 1 Top_right = [0]
                | _ \<Rightarrow> False)
         | _ \<Rightarrow> False)
    | Inl e \<Rightarrow> False)"
  by code_simp

subsection \<open>Resetting a timeout\<close>

text \<open>
  C7 at a failing input. The claim says that \<open>reset_timeout\<close> installs and starts a
  timer for every notification. A notification made with timeout 0 has no timer;
  \<open>reset_timeout\<close> with a new timeout of 10 does not read the new timeout, \<open>set_timeout\<close>
  installs no timer for the stored timeout 0, and the final start of the timer is a Lua
  error (the stop at the beginning of the function is guarded against a missing timer,
  the start at its end is not).
\<close>

theorem reset_timeout_no_timer_counterexample:
  "reset_timeout
     ((initial_state 1 screen_800x600)
        \<lparr> objs := (\<lambda>r. popup_80) \<rparr>) 0 (Some 10) = Inl Lua_error"
  by (simp add: reset_timeout_def set_timeout_def stop_timer_def popup_80_def initial_state_def)

text \<open>
  The argument \<open>new_timeout\<close> never has an effect. With the global \<open>timeout\<close> undefined
  and a positive stored timeout, \<open>reset_timeout\<close> installs and starts a timer whose
  duration is the stored timeout, which stays as it was.
\<close>

lemma reset_timeout_uses_stored_timeout:
  "reset_timeout st r new_timeout = reset_timeout st r other_timeout
   \<and> (global_timeout st = None \<and> n_timeout (objs st r) > 0 \<longrightarrow>
        (\<exists>st'. reset_timeout st r new_timeout = Inr st'
           \<and> n_timer (objs st' r) = Some \<lparr> t_timeout = n_timeout (objs st r), t_started = True \<rparr>
           \<and> n_timeout (objs st' r) = n_timeout (objs st r)))"
  by (auto simp: reset_timeout_def set_timeout_def stop_timer_def Let_def split: option.splits)

subsection \<open>Eviction in get_offset\<close>

lemma destroy_remove_fields [simp]:
  "screen_count (destroy_remove st r) = screen_count st"
  "workarea (destroy_remove st r) = workarea st"
  "cfg_padding (destroy_remove st r) = cfg_padding st"
  "cfg_spacing (destroy_remove st r) = cfg_spacing st"
  "suspended (destroy_remove st r) = suspended st"
  "destroy_cb_calls (destroy_remove st r) = destroy_cb_calls st"
  "valid_screen (destroy_remove st r) s = valid_screen st s"
  by (simp_all add: destroy_remove_def Let_def valid_screen_def)

lemma arrange_list_empty:
  "notifications st scr p = [] \<Longrightarrow> arrange_list (Suc n) st scr p i = Inr st"
  by (auto simp: lua_index_def)

lemma arrange_positions_empty:
  "\<forall>p \<in> set ps. notifications st scr p = [] \<Longrightarrow>
   arrange_positions fuel st scr ps = Inl Out_of_fuel \<or> arrange_positions fuel st scr ps = Inr st"
proof (induction ps arbitrary: fuel)
  case Nil
  then show ?case by (cases fuel) simp_all
next
  case (Cons p ps)
  show ?case
  proof (cases fuel)
    case 0
    then show ?thesis by simp
  next
    case (Suc n)
    show ?thesis
    proof (cases n)
      case 0
      with Suc show ?thesis by simp
    next
      case (Suc k)
      from Cons.prems have "arrange_list (Suc k) st scr p 1 = Inr st"
        by (intro arrange_list_empty) simp
      with Suc have "arrange_list n st scr p 1 = Inr st" by simp
      with \<open>fuel = Suc n\<close> Cons.IH [of n] Cons.prems show ?thesis by simp
    qed
  qed
qed

lemma arrange_empty:
  "\<forall>p. notifications st scr p = [] \<Longrightarrow> valid_screen st scr \<Longrightarrow>
   arrange fuel st scr = Inl Out_of_fuel \<or> arrange fuel st scr = Inr st"
  using arrange_positions_empty [of all_positions st scr]
  by (cases fuel) auto

text \<open>
  When the list is empty and the popup does not fit on its own, nothing is evicted, the
  index goes down by one and the same computation is repeated: no amount of fuel suffices.
\<close>

lemma get_offset_nothing_to_evict:
  assumes "notifications st scr pos = []" and "valid_screen st scr" and "cfg_padding st = Some pad"
    and "outside_workarea (workarea st scr) (get_offset_y (workarea st scr) pad pos h 0) h"
  shows "idx \<le> 1 \<Longrightarrow> get_offset fuel st scr pos (Some idx) (Some w) h = Inl Out_of_fuel"
proof (induction fuel arbitrary: idx)
  case 0
  show ?case by simp
next
  case (Suc n)
  from Suc.prems have z: "nat (idx - 1) = 0" by simp
  have c: "get_offset_calc st scr pos (Some idx) (Some w) h =
      Inr (\<lparr> off_x = get_offset_x (workarea st scr) pad pos w,
              off_y = get_offset_y (workarea st scr) pad pos h 0, off_idx = idx \<rparr>, w)"
    using assms z by (simp add: get_offset_calc_def Let_def)
  have d: "naughty_destroy n st None None = Inl Out_of_fuel \<or> naughty_destroy n st None None = Inr (False, st)"
    by (cases n) simp_all
  from Suc.prems have "idx - 1 \<le> 1" by simp
  from Suc.IH [OF this] d assms c show ?case
    by (auto simp: lua_index_def)
qed

text \<open>
  C3 at a failing input: the popup of \<open>shrunk_state\<close> is 80 high and the work area is 60
  high. \<open>arrange\<close> asks for the offset of the popup at index 1; the popup itself is evicted
  as the oldest one, and from then on nothing is left to evict while the recomputation
  goes on. Whatever the fuel, the call runs out of it.
\<close>

theorem get_offset_never_returns:
  "\<forall>fuel. get_offset fuel shrunk_state 1 Top_right (Some 1) (Some 200) 80 = Inl Out_of_fuel"
proof
  fix fuel
  let ?st3 = "destroy_remove shrunk_state 0"
  have empty3: "\<forall>p. notifications ?st3 1 p = []"
    by (simp add: shrunk_state_def destroy_remove_def initial_state_def popup_80_def table_remove_def Let_def)
  have valid3: "valid_screen ?st3 1"
    by (simp add: shrunk_state_def initial_state_def valid_screen_def)
  have ws3: "workarea ?st3 1 = \<lparr> r_x = 100, r_y = 20, r_width = 800, r_height = 60 \<rparr>"
    by (simp add: shrunk_state_def initial_state_def)
  have out3: "outside_workarea (workarea ?st3 1) (get_offset_y (workarea ?st3 1) 4 Top_right 80 0) 80"
    unfolding ws3 by (simp add: outside_workarea_def get_offset_y_def)
  have pad3: "cfg_padding ?st3 = Some 4"
    by (simp add: shrunk_state_def initial_state_def)
  have nocb3: "destroy_callback ?st3 0 None = ?st3"
    by (simp add: destroy_callback_def shrunk_state_def destroy_remove_def initial_state_def
        popup_80_def stop_timer_def Let_def)
  have div3: "\<And>n. get_offset n ?st3 1 Top_right (Some 0) (Some 200) 80 = Inl Out_of_fuel"
    using empty3 by (intro get_offset_nothing_to_evict [OF _ valid3 pad3 out3]) simp_all
  have calc: "get_offset_calc shrunk_state 1 Top_right (Some 1) (Some 200) 80
      = Inr (\<lparr> off_x = 696, off_y = 24, off_idx = 1 \<rparr>, 200)"
    by (simp add: get_offset_calc_def shrunk_state_def initial_state_def valid_screen_def
        get_offset_x_def get_offset_y_def Let_def)
  have out: "outside_workarea (workarea shrunk_state 1) 24 80"
    by (simp add: shrunk_state_def initial_state_def outside_workarea_def)
  have first: "lua_index (notifications shrunk_state 1 Top_right) 1 = Some 0"
    by (simp add: shrunk_state_def lua_index_def)
  have pre: "box_visible (objs shrunk_state 0)" "n_screen (objs shrunk_state 0) = 1"
    "valid_screen shrunk_state 1"
    by (simp_all add: shrunk_state_def initial_state_def popup_80_def valid_screen_def)
  show "get_offset fuel shrunk_state 1 Top_right (Some 1) (Some 200) 80 = Inl Out_of_fuel"
  proof (cases fuel)
    case 0
    then show ?thesis by simp
  next
    case (Suc n)
    have step: "get_offset (Suc n) shrunk_state 1 Top_right (Some 1) (Some 200) 80 =
       (case naughty_destroy n shrunk_state (Some 0) None of
          Inl e \<Rightarrow> Inl e
        | Inr (_, st1) \<Rightarrow> get_offset n st1 1 Top_right (Some 0) (Some 200) 80)"
      using calc out first by (simp split: sum.splits prod.splits)
    show ?thesis
    proof (cases n)
      case 0
      with step Suc show ?thesis by simp
    next
      case (Suc k)
      from arrange_empty [OF empty3 valid3, of k]
      show ?thesis
      proof
        assume "arrange k ?st3 1 = Inl Out_of_fuel"
        then have "naughty_destroy (Suc k) shrunk_state (Some 0) None = Inl Out_of_fuel"
          using pre by simp
        with step Suc \<open>fuel = Suc n\<close> show ?thesis by simp
      next
        assume "arrange k ?st3 1 = Inr ?st3"
        then have "naughty_destroy (Suc k) shrunk_state (Some 0) None = Inr (True, ?st3)"
          using pre nocb3 by simp
        with step Suc \<open>fuel = Suc n\<close> div3 [of n] show ?thesis by simp
      qed
    qed
  qed
qed

subsection \<open>Cropping to the work area\<close>

text \<open>
  C6. When \<open>notify\<close> returns a notification, the width given to the popup's box is the
  computed width, replaced by work-area width - 2 * border width - 2 * padding exactly when
  it exceeds that bound, and likewise the height; the size recorded in the notification is
  the box size plus twice the border width. An absent border width or padding counts as 0.
\<close>

theorem notify_crops_to_workarea:
  assumes n: "notify fuel st args0 m = Inr (Some r, st')"
    and cb: "(case cfg_notify_callback st of None \<Rightarrow> Some args0 | Some cb \<Rightarrow> cb args0) = Some args"
  shows "\<exists>w1 h1 screen.
      uncropped_size (lua_or (a_width args) (ps_width (effective_preset st args)))
                     (lua_or (a_height args) (ps_height (effective_preset st args)))
                     (lua_or (a_margin args) (ps_margin (effective_preset st args))) m = Inr (w1, h1)
      \<and> lua_or (a_screen args) (ps_screen (effective_preset st args)) = Some screen
      \<and> box_width (objs st' r) =
          (let bound = r_width (workarea st screen)
                       - 2 * or0 (lua_or (a_border_width args) (ps_border_width (effective_preset st args)))
                       - 2 * or0 (cfg_padding st)
           in if w1 > bound then bound else w1)
      \<and> box_height (objs st' r) =
          (let bound = r_height (workarea st screen)
                       - 2 * or0 (lua_or (a_border_width args) (ps_border_width (effective_preset st args)))
                       - 2 * or0 (cfg_padding st)
           in if h1 > bound then bound else h1)
      \<and> n_width (objs st' r) = box_width (objs st' r)
           + 2 * or0 (lua_or (a_border_width args) (ps_border_width (effective_preset st args)))
      \<and> n_height (objs st' r) = box_height (objs st' r)
           + 2 * or0 (lua_or (a_border_width args) (ps_border_width (effective_preset st args)))"
proof -
  let ?ps = "effective_preset st args"
  let ?bw = "lua_or (a_border_width args) (ps_border_width ?ps)"
  from n cb obtain nid st1 susp w1 h1 screen position destroy_cb timeout off st2 where
    rep: "replace_id fuel st (a_replaces_id args) = Inr (nid, st1)"
    and u: "uncropped_size (lua_or (a_width args) (ps_width ?ps))
       (lua_or (a_height args) (ps_height ?ps)) (lua_or (a_margin args) (ps_margin ?ps)) m = Inr (w1, h1)"
    and sp: "lua_or (a_screen args) (ps_screen ?ps) = Some screen"
    and ins: "(r, st') =
       insert_notification st2 screen position
         (new_notification susp screen position destroy_cb timeout nid ?bw
            (crop_to_workarea (r_width (workarea st1 screen)) ?bw (cfg_padding st1) w1)
            (crop_to_workarea (r_height (workarea st1 screen)) ?bw (cfg_padding st1) h1)
            off)"
    by (rule notify_returns) blast
  from replace_id_frame [OF rep] have same: "workarea st1 = workarea st" "cfg_padding st1 = cfg_padding st"
    by (auto simp: frame_def)
  let ?width = "crop_to_workarea (r_width (workarea st screen)) ?bw (cfg_padding st) w1"
  let ?height = "crop_to_workarea (r_height (workarea st screen)) ?bw (cfg_padding st) h1"
  from ins same have "box_width (objs st' r) = ?width" "box_height (objs st' r) = ?height"
    "n_width (objs st' r) = ?width + 2 * or0 ?bw" "n_height (objs st' r) = ?height + 2 * or0 ?bw"
    by (simp_all add: insert_notification_def new_notification_def Let_def set_timeout_def split: if_splits)
  with u sp show ?thesis
    by (simp add: crop_to_workarea_def Let_def)
qed

theorem notify_crops_to_workarea_witness:
  "(case notify 2 (initial_state 1 screen_800x600) no_args (text_only 1000 30) of
      Inr (Some r, st') \<Rightarrow> box_width (objs st' r) = 790 \<and> box_height (objs st' r) = 40
                         \<and> n_width (objs st' r) = 792 \<and> n_height (objs st' r) = 42
    | _ \<Rightarrow> False)"
proof -
  let ?s = "initial_state 1 screen_800x600"
  have "(case notify 2 ?s no_args (text_only 1000 30) of Inr (Some r, st') \<Rightarrow> True | _ \<Rightarrow> False)"
    by code_simp
  then obtain r st' where n: "notify 2 ?s no_args (text_only 1000 30) = Inr (Some r, st')"
    by (auto split: sum.splits option.splits prod.splits)
  have cb: "(case cfg_notify_callback ?s of None \<Rightarrow> Some no_args | Some cb \<Rightarrow> cb no_args) = Some no_args"
    by (simp add: initial_state_def)
  have u: "uncropped_size (lua_or (a_width no_args) (ps_width (effective_preset ?s no_args)))
                     (lua_or (a_height no_args) (ps_height (effective_preset ?s no_args)))
                     (lua_or (a_margin no_args) (ps_margin (effective_preset ?s no_args))) (text_only 1000 30)
        = Inr (1010, 40)"
    by (simp add: uncropped_size_def lua_or_def effective_preset_def table_join_def no_args_def
        initial_state_def naughty_defaults_def empty_preset_def text_only_def)
  have v: "lua_or (a_screen no_args) (ps_screen (effective_preset ?s no_args)) = Some 1"
    "or0 (lua_or (a_border_width no_args) (ps_border_width (effective_preset ?s no_args))) = 1"
    "or0 (cfg_padding ?s) = 4" "workarea ?s 1 = \<lparr> r_x = 100, r_y = 20, r_width = 800, r_height = 600 \<rparr>"
    by (simp_all add: lua_or_def or0_def effective_preset_def table_join_def no_args_def
        initial_state_def naughty_defaults_def empty_preset_def screen_800x600_def)
  from notify_crops_to_workarea [OF n cb] u v
  have "box_width (objs st' r) = 790 \<and> box_height (objs st' r) = 40
        \<and> n_width (objs st' r) = 792 \<and> n_height (objs st' r) = 42"
    by (simp add: Let_def)
  with n show ?thesis by simp
qed

subsection \<open>Replacing a notification\<close>

lemma table_remove_notin:
  assumes d: "distinct xs" and i: "lua_index xs i = Some x"
  shows "x \<notin> set (table_remove xs i)"
proof -
  from i have r: "1 \<le> i" "i \<le> int (length xs)" and x: "x = xs ! nat (i - 1)"
    by (auto simp: lua_index_def split: if_splits)
  let ?k = "nat (i - 1)"
  from r have k: "?k < length xs" and s: "nat i = Suc ?k" by auto
  from d id_take_nth_drop [OF k] have "distinct (take ?k xs @ xs ! ?k # drop (Suc ?k) xs)"
    by simp
  then have "xs ! ?k \<notin> set (take ?k xs) \<union> set (drop (Suc ?k) xs)"
    by auto
  with r x s show ?thesis
    by (simp add: table_remove_def)
qed

text \<open>
  C2 at a failing input. The claim says that the old notification is destroyed silently
  and that the new one takes its id. For a notification made while notifications are
  suspended the box is hidden, \<open>naughty.destroy\<close> leaves it alone, and after the call the
  old notification is still in its list and in the suspended list, with its timer, next to
  the new one with the same id.
\<close>

theorem notify_replace_hidden_counterexample:
  "getById hidden_popup_state 2 = Some 0
   \<and> (case notify 2 hidden_popup_state (replace_args 2) (text_only 180 30) of
        Inr (Some r, st') \<Rightarrow>
          r = 1 \<and> n_id (objs st' 1) = 2 \<and> n_id (objs st' 0) = 2
          \<and> notifications st' 1 Top_right = [0, 1]
          \<and> notifications_suspended st' = [0, 1]
          \<and> n_timer (objs st' 0) = n_timer (objs hidden_popup_state 0)
      | _ \<Rightarrow> False)"
  by code_simp

text \<open>
  The same happens in \<open>stale_index_state\<close>, where the notification with id 4 is visible
  but records the index of its neighbour: the call hides it and takes the neighbour out of
  the list, and the old notification stays listed next to the new one, both with id 4.
\<close>

lemma notify_replace_stale_index_keeps_old:
  "(case stale_index_state of
      Inr s \<Rightarrow>
        getById s 4 = Some 2
        \<and> (case notify 30 s (replace_args 4) (text_only 180 30) of
             Inr (Some r, s') \<Rightarrow>
               r = 3 \<and> notifications s' 1 Top_right = [2, 3]
               \<and> n_id (objs s' 2) = 4 \<and> n_id (objs s' 3) = 4
           | _ \<Rightarrow> False)
    | Inl e \<Rightarrow> False)"
  by code_simp

text \<open>
  When the old notification is visible and stands in the list of its screen and position,
  once, at the index it records, and in no other list, the replacement does what is meant.
  Let \<open>notify\<close> be called with a \<open>replaces_id\<close> that is at most the counter and let
  \<open>getById\<close> find the notification \<open>old\<close> for it. When the call returns, the new
  notification has the id \<open>replaces_id\<close>, and under the conditions above \<open>old\<close> is in no
  list, its box is hidden, its timer is stopped and no destroy callback was invoked for it.
\<close>

theorem notify_replaces_visible:
  assumes n: "notify fuel st args0 m = Inr (Some r', st')"
    and cb: "(case cfg_notify_callback st of None \<Rightarrow> Some args0 | Some cb \<Rightarrow> cb args0) = Some args"
    and rid: "a_replaces_id args = Some rid"
    and old: "getById st rid = Some old"
    and cnt: "rid \<le> counter st"
  shows "n_id (objs st' r') = rid
     \<and> (box_visible (objs st old) \<and> old < next_ref st
          \<and> distinct (notifications st (n_screen (objs st old)) (n_position (objs st old)))
          \<and> lua_index (notifications st (n_screen (objs st old)) (n_position (objs st old)))
               (n_idx (objs st old)) = Some old
          \<and> (\<forall>s p. old \<in> set (notifications st s p) \<longrightarrow>
                 s = n_screen (objs st old) \<and> p = n_position (objs st old))
        \<longrightarrow> (\<forall>s p. old \<notin> set (notifications st' s p))
            \<and> \<not> box_visible (objs st' old)
            \<and> (case n_timer (objs st' old) of None \<Rightarrow> True | Some t \<Rightarrow> \<not> t_started t)
            \<and> filter (\<lambda>e. fst e = old) (destroy_cb_calls st')
                = filter (\<lambda>e. fst e = old) (destroy_cb_calls st))"
proof -
  from n cb obtain nid st1 screen position off st2 w h nt where
    rep: "replace_id fuel st (a_replaces_id args) = Inr (nid, st1)"
    and go: "get_offset fuel st1 screen position None w h = Inr (off, st2)"
    and ins: "(r', st') = insert_notification st2 screen position nt"
    and nn: "n_id nt = nid"
    by (rule notify_returns) (auto simp: new_notification_def set_timeout_def)
  from rep rid old obtain b st0 where
    de: "naughty_destroy fuel st (Some old) (Some reason_silent) = Inr (b, st0)"
    by (auto simp: replace_id_def split: sum.splits)
  have f0: "frame st st0" by (rule frame_naughty_destroy [OF de])
  then have c0: "counter st0 = counter st" by (simp add: frame_def)
  from rep rid old de cnt c0 have nid: "nid = rid" and st1: "st1 = st0"
    by (auto simp: replace_id_def)
  from ins have r': "r' = next_ref st2"
    and lists': "\<And>s p. set (notifications st' s p) \<subseteq> insert r' (set (notifications st2 s p))"
    and objs': "\<And>x. x \<noteq> r' \<Longrightarrow> objs st' x = objs st2 x"
    and log': "destroy_cb_calls st' = destroy_cb_calls st2"
    and id': "n_id (objs st' r') = n_id nt"
    by (auto simp: insert_notification_def Let_def split: if_splits)
  have f2: "frame st1 st2" by (rule frame_get_offset [OF go])
  have id: "n_id (objs st' r') = rid"
    using id' nn nid by simp
  have rest: "(\<forall>s p. old \<notin> set (notifications st' s p))
            \<and> \<not> box_visible (objs st' old)
            \<and> (case n_timer (objs st' old) of None \<Rightarrow> True | Some t \<Rightarrow> \<not> t_started t)
            \<and> filter (\<lambda>e. fst e = old) (destroy_cb_calls st')
                = filter (\<lambda>e. fst e = old) (destroy_cb_calls st)"
    if vis: "box_visible (objs st old)" and alloc: "old < next_ref st"
      and dist: "distinct (notifications st (n_screen (objs st old)) (n_position (objs st old)))"
      and at: "lua_index (notifications st (n_screen (objs st old)) (n_position (objs st old)))
               (n_idx (objs st old)) = Some old"
      and only: "\<forall>s p. old \<in> set (notifications st s p) \<longrightarrow>
                 s = n_screen (objs st old) \<and> p = n_position (objs st old)"
  proof -
    let ?st3 = "destroy_remove st old"
    from de vis obtain fuel' st4 where
      ar: "arrange fuel' ?st3 (n_screen (objs st old)) = Inr st4"
      and st0: "st0 = destroy_callback st4 old (Some reason_silent)"
      by (cases fuel) (auto split: if_splits sum.splits)
    have st04: "st0 = st4" using st0 by (simp add: destroy_callback_def)
    have f34: "frame ?st3 st4" by (rule frame_arrange [OF ar])
    have f32: "frame ?st3 st2" using f34 f2 st04 st1 by (auto intro: frame_trans)
    have gone3: "\<forall>s p. old \<notin> set (notifications ?st3 s p)"
      using table_remove_notin [OF dist at] only
      by (auto simp: destroy_remove_def Let_def)
    have hid3: "\<not> box_visible (objs ?st3 old)"
      by (simp add: destroy_remove_def Let_def)
    have tim3: "(case n_timer (objs ?st3 old) of None \<Rightarrow> True | Some t \<Rightarrow> \<not> t_started t)"
      by (auto simp: destroy_remove_def Let_def stop_timer_def split: option.splits)
    have log3: "destroy_cb_calls ?st3 = destroy_cb_calls st" by simp
    from f32 have gone2: "\<forall>s p. old \<notin> set (notifications st2 s p)"
      using gone3 unfolding frame_def by blast
    from f32 hid3 have hid2: "\<not> box_visible (objs st2 old)"
      and tim2: "n_timer (objs st2 old) = n_timer (objs ?st3 old)"
      by (auto simp: frame_def)
    from f32 obtain ext where ext: "destroy_cb_calls st2 = destroy_cb_calls ?st3 @ ext"
      "\<forall>e \<in> set ext. box_visible (objs ?st3 (fst e))"
      unfolding frame_def by blast
    from ext(2) hid3 have "filter (\<lambda>e. fst e = old) ext = []"
      by (auto simp: filter_empty_conv)
    with ext(1) log3 have log2: "filter (\<lambda>e. fst e = old) (destroy_cb_calls st2)
        = filter (\<lambda>e. fst e = old) (destroy_cb_calls st)"
      by simp
    from f0 f2 st1 have "next_ref st2 = next_ref st" by (simp add: frame_def)
    with alloc r' have ne: "r' \<noteq> old" by simp
    from gone2 lists' ne have "\<forall>s p. old \<notin> set (notifications st' s p)"
      by blast
    with hid2 tim2 tim3 log2 objs' [of old] log' ne show ?thesis
      by simp
  qed
  from id rest show ?thesis by blast
qed

theorem notify_replaces_visible_witness:
  "(case notify 20 one_popup_state (replace_args 2) (text_only 180 30) of
      Inr (Some r', st') \<Rightarrow>
        n_id (objs st' r') = 2
        \<and> 0 \<notin> set (notifications st' 1 Top_right)
        \<and> \<not> box_visible (objs st' 0)
        \<and> (case n_timer (objs st' 0) of None \<Rightarrow> True | Some t \<Rightarrow> \<not> t_started t)
        \<and> filter (\<lambda>e. fst e = 0) (destroy_cb_calls st') = []
    | _ \<Rightarrow> False)"
proof -
  let ?s = "one_popup_state"
  have "(case notify 20 ?s (replace_args 2) (text_only 180 30) of Inr (Some r, st') \<Rightarrow> True | _ \<Rightarrow> False)"
    by code_simp
  then obtain r' st' where n: "notify 20 ?s (replace_args 2) (text_only 180 30) = Inr (Some r', st')"
    by (auto split: sum.splits option.splits prod.splits)
  have cb: "(case cfg_notify_callback ?s of None \<Rightarrow> Some (replace_args 2) | Some cb \<Rightarrow> cb (replace_args 2))
      = Some (replace_args 2)"
    by (simp add: one_popup_state_def initial_state_def)
  have rid: "a_replaces_id (replace_args 2) = Some 2"
    by (simp add: replace_args_def)
  have old: "getById ?s 2 = Some 0"
    by code_simp
  have cnt: "2 \<le> counter ?s"
    by (simp add: one_popup_state_def)
  have o: "objs ?s 0 = shown_popup" "next_ref ?s = 1" "destroy_cb_calls ?s = []"
    "notifications ?s = (\<lambda>s p. if s = 1 \<and> p = Top_right then [0] else [])"
    by (simp_all add: one_popup_state_def initial_state_def)
  have pre: "box_visible (objs ?s 0) \<and> 0 < next_ref ?s
          \<and> distinct (notifications ?s (n_screen (objs ?s 0)) (n_position (objs ?s 0)))
          \<and> lua_index (notifications ?s (n_screen (objs ?s 0)) (n_position (objs ?s 0)))
               (n_idx (objs ?s 0)) = Some 0
          \<and> (\<forall>s p. 0 \<in> set (notifications ?s s p) \<longrightarrow>
                 s = n_screen (objs ?s 0) \<and> p = n_position (objs ?s 0))"
    unfolding o by (simp add: shown_popup_def lua_index_def)
  from notify_replaces_visible [OF n cb rid old cnt] pre
  have "n_id (objs st' r') = 2
        \<and> (\<forall>s p. 0 \<notin> set (notifications st' s p))
        \<and> \<not> box_visible (objs st' 0)
        \<and> (case n_timer (objs st' 0) of None \<Rightarrow> True | Some t \<Rightarrow> \<not> t_started t)
        \<and> filter (\<lambda>e. fst e = 0) (destroy_cb_calls st') = filter (\<lambda>e. fst e = 0) (destroy_cb_calls ?s)"
    by blast
  with n o(3) show ?thesis by simp
qed

subsection \<open>Arranging lists in which every popup fits\<close>

lemma lua_index_nth: "j < length xs \<Longrightarrow> lua_index xs (int j + 1) = Some (xs ! j)"
  by (simp add: lua_index_def)

lemma lua_index_end: "lua_index xs (int (length xs) + 1) = None"
  by (simp add: lua_index_def)

lemma existing_height_sum:
  "k \<le> length lst \<Longrightarrow> existing_height os spacing lst k = Inr (existing_sum os spacing lst k)"
proof (induction k)
  case 0
  show ?case by (simp add: existing_sum_def)
next
  case (Suc k)
  then have k: "k < length lst" by simp
  from lua_index_nth [OF k] have "lua_index lst (int (Suc k)) = Some (lst ! k)"
    by (simp add: add.commute)
  with Suc k show ?case
    by (simp add: existing_sum_def take_Suc_conv_app_nth)
qed

lemma get_offset_fits:
  assumes "valid_screen st scr" and "cfg_padding st = Some pad"
    and "j < length (notifications st scr p)"
    and "\<not> outside_workarea (workarea st scr) (entry_y st pad scr p j)
            (n_height (objs st (notifications st scr p ! j)))"
  shows "get_offset (Suc n) st scr p (Some (int j + 1)) (Some w)
           (n_height (objs st (notifications st scr p ! j)))
         = Inr (\<lparr> off_x = get_offset_x (workarea st scr) pad p w,
                   off_y = entry_y st pad scr p j, off_idx = int j + 1 \<rparr>, st)"
proof -
  from assms(3) have "existing_height (objs st) (cfg_spacing st) (notifications st scr p) j
      = Inr (existing_sum (objs st) (cfg_spacing st) (notifications st scr p) j)"
    by (intro existing_height_sum) simp
  with assms show ?thesis
    by (simp add: get_offset_calc_def Let_def entry_y_def)
qed

lemma same_lists_refl: "same_lists st st"
  by (simp add: same_lists_def)

lemma same_lists_trans: "same_lists a b \<Longrightarrow> same_lists b c \<Longrightarrow> same_lists a c"
  by (simp add: same_lists_def)

lemma same_lists_apply_offset: "same_lists st (apply_offset st r off)"
  by (simp add: same_lists_def apply_offset_def)

lemma same_lists_entry_y: "same_lists st st' \<Longrightarrow> entry_y st' pad scr p j = entry_y st pad scr p j"
  by (simp add: same_lists_def entry_y_def existing_sum_def)

lemma same_lists_fits: "same_lists st st' \<Longrightarrow> fits st' pad scr p = fits st pad scr p"
  using same_lists_entry_y [of st st' pad scr p]
  by (simp add: fits_def) (simp add: same_lists_def)

lemma same_lists_valid: "same_lists st st' \<Longrightarrow> valid_screen st' scr = valid_screen st scr"
  by (simp add: same_lists_def valid_screen_def)

lemma arrange_list_fits:
  assumes "length (notifications st scr p) - k = d"
    and "valid_screen st scr" and "cfg_padding st = Some pad" and "fits st pad scr p"
    and "distinct (notifications st scr p)"
    and "k \<le> length (notifications st scr p)"
    and "length (notifications st scr p) - k + 2 \<le> fuel"
  shows "\<exists>st'. arrange_list fuel st scr p (int k + 1) = Inr st' \<and> same_lists st st'
     \<and> (\<forall>j. k \<le> j \<and> j < length (notifications st scr p) \<longrightarrow>
            n_idx (objs st' (notifications st scr p ! j)) = int j + 1
            \<and> box_y (objs st' (notifications st scr p ! j)) = entry_y st pad scr p j)
     \<and> (\<forall>x. x \<notin> set (drop k (notifications st scr p)) \<longrightarrow> objs st' x = objs st x)"
  using assms
proof (induction d arbitrary: k st fuel)
  case 0
  then have k: "k = length (notifications st scr p)" by simp
  from 0 obtain n where fuel: "fuel = Suc n" by (cases fuel) auto
  have "arrange_list fuel st scr p (int k + 1) = Inr st"
    unfolding fuel k by (simp add: lua_index_end)
  with k show ?case
    by (auto simp: same_lists_refl)
next
  case (Suc d)
  let ?L = "notifications st scr p"
  let ?r = "?L ! k"
  from Suc.prems have k: "k < length ?L" by simp
  from Suc.prems k obtain m where fuel: "fuel = Suc (Suc m)"
    by (cases fuel; cases "fuel - 1") auto
  let ?off = "\<lparr> off_x = get_offset_x (workarea st scr) pad p (n_width (objs st ?r)),
                 off_y = entry_y st pad scr p k, off_idx = int k + 1 \<rparr>"
  let ?st1 = "apply_offset st ?r ?off"
  from Suc.prems(4) k have nf: "\<not> outside_workarea (workarea st scr) (entry_y st pad scr p k)
            (n_height (objs st ?r))"
    by (simp add: fits_def)
  have go: "get_offset (Suc m) st scr p (Some (int k + 1)) (Some (n_width (objs st ?r)))
              (n_height (objs st ?r)) = Inr (?off, st)"
    by (rule get_offset_fits [OF Suc.prems(2) Suc.prems(3) k nf])
  have step: "arrange_list fuel st scr p (int k + 1) = arrange_list (Suc m) ?st1 scr p (int (Suc k) + 1)"
    unfolding fuel using go lua_index_nth [OF k] by (simp add: add.commute)
  have sl: "same_lists st ?st1" by (rule same_lists_apply_offset)
  then have L1: "notifications ?st1 scr p = ?L" by (simp add: same_lists_def)
  have "\<exists>st'. arrange_list (Suc m) ?st1 scr p (int (Suc k) + 1) = Inr st' \<and> same_lists ?st1 st'
     \<and> (\<forall>j. Suc k \<le> j \<and> j < length (notifications ?st1 scr p) \<longrightarrow>
            n_idx (objs st' (notifications ?st1 scr p ! j)) = int j + 1
            \<and> box_y (objs st' (notifications ?st1 scr p ! j)) = entry_y ?st1 pad scr p j)
     \<and> (\<forall>x. x \<notin> set (drop (Suc k) (notifications ?st1 scr p)) \<longrightarrow> objs st' x = objs ?st1 x)"
  proof (rule Suc.IH)
    show "length (notifications ?st1 scr p) - Suc k = d"
      using Suc.prems(1) L1 by simp
    show "valid_screen ?st1 scr"
      using Suc.prems(2) same_lists_valid [OF sl] by simp
    show "cfg_padding ?st1 = Some pad"
      using Suc.prems(3) sl by (simp add: same_lists_def)
    show "fits ?st1 pad scr p"
      using Suc.prems(4) same_lists_fits [OF sl] by simp
    show "distinct (notifications ?st1 scr p)"
      using Suc.prems(5) L1 by simp
    show "Suc k \<le> length (notifications ?st1 scr p)"
      using k L1 by simp
    show "length (notifications ?st1 scr p) - Suc k + 2 \<le> Suc m"
      using Suc.prems(7) L1 fuel k by simp
  qed
  then obtain st' where res: "arrange_list (Suc m) ?st1 scr p (int (Suc k) + 1) = Inr st'"
    and sl': "same_lists ?st1 st'"
    and later: "\<And>j. Suc k \<le> j \<Longrightarrow> j < length ?L \<Longrightarrow>
            n_idx (objs st' (?L ! j)) = int j + 1 \<and> box_y (objs st' (?L ! j)) = entry_y ?st1 pad scr p j"
    and untouched: "\<And>x. x \<notin> set (drop (Suc k) ?L) \<Longrightarrow> objs st' x = objs ?st1 x"
    unfolding L1 by blast
  have dr: "drop k ?L = ?r # drop (Suc k) ?L"
    using k by (simp add: Cons_nth_drop_Suc)
  from Suc.prems(5) have "distinct (drop k ?L)" by simp
  with dr have rn: "?r \<notin> set (drop (Suc k) ?L)" by simp
  have here: "n_idx (objs st' ?r) = int k + 1 \<and> box_y (objs st' ?r) = entry_y st pad scr p k"
    using untouched [OF rn] by (simp add: apply_offset_def)
  have all: "n_idx (objs st' (?L ! j)) = int j + 1 \<and> box_y (objs st' (?L ! j)) = entry_y st pad scr p j"
    if "k \<le> j" "j < length ?L" for j
  proof (cases "j = k")
    case True
    with here show ?thesis by simp
  next
    case False
    with that have "Suc k \<le> j" by simp
    from later [OF this that(2)] same_lists_entry_y [OF sl] show ?thesis by simp
  qed
  have out: "objs st' x = objs st x" if "x \<notin> set (drop k ?L)" for x
  proof -
    from that dr have "x \<noteq> ?r" "x \<notin> set (drop (Suc k) ?L)" by auto
    with untouched [of x] show ?thesis by (simp add: apply_offset_def)
  qed
  from step res same_lists_trans [OF sl sl'] all out show ?case
    by auto
qed

lemma arranged_same:
  assumes sl: "same_lists st st'"
    and eq: "\<forall>x \<in> set (notifications st scr p). objs st' x = objs st x"
    and ar: "arranged st pad scr p"
  shows "arranged st' pad scr p"
proof -
  from sl have L: "notifications st' scr p = notifications st scr p"
    by (simp add: same_lists_def)
  show ?thesis
    unfolding arranged_def L same_lists_entry_y [OF sl]
    using ar eq by (simp add: arranged_def)
qed

lemma arrange_positions_fits:
  assumes "valid_screen st scr" and "cfg_padding st = Some pad"
    and "\<forall>p \<in> set ps. fits st pad scr p \<and> distinct (notifications st scr p)
            \<and> length (notifications st scr p) \<le> B"
    and "B + length ps + 2 \<le> fuel"
  shows "\<exists>st'. arrange_positions fuel st scr ps = Inr st' \<and> same_lists st st'
     \<and> (\<forall>x. (\<forall>p \<in> set ps. x \<notin> set (notifications st scr p)) \<longrightarrow> objs st' x = objs st x)
     \<and> (\<forall>q \<in> set ps.
           distinct ps
           \<and> (\<forall>p \<in> set ps. p \<noteq> q \<longrightarrow>
                  set (notifications st scr p) \<inter> set (notifications st scr q) = {})
           \<longrightarrow> arranged st' pad scr q)"
  using assms
proof (induction ps arbitrary: st fuel)
  case Nil
  then obtain n where "fuel = Suc n" by (cases fuel) auto
  then show ?case by (simp add: same_lists_refl)
next
  case (Cons p ps)
  let ?L = "notifications st scr p"
  from Cons.prems obtain n where fuel: "fuel = Suc n" by (cases fuel) auto
  from Cons.prems have p: "fits st pad scr p" "distinct ?L" "length ?L \<le> B" by simp_all
  have "\<exists>st1. arrange_list n st scr p (int 0 + 1) = Inr st1 \<and> same_lists st st1
     \<and> (\<forall>j. 0 \<le> j \<and> j < length ?L \<longrightarrow>
            n_idx (objs st1 (?L ! j)) = int j + 1 \<and> box_y (objs st1 (?L ! j)) = entry_y st pad scr p j)
     \<and> (\<forall>x. x \<notin> set (drop 0 ?L) \<longrightarrow> objs st1 x = objs st x)"
    using Cons.prems(4) p(3) fuel
    by (intro arrange_list_fits [OF refl Cons.prems(1) Cons.prems(2) p(1) p(2)]) simp_all
  then obtain st1 where al: "arrange_list n st scr p 1 = Inr st1"
    and sl: "same_lists st st1"
    and placed: "\<And>j. j < length ?L \<Longrightarrow>
            n_idx (objs st1 (?L ! j)) = int j + 1 \<and> box_y (objs st1 (?L ! j)) = entry_y st pad scr p j"
    and out1: "\<And>x. x \<notin> set ?L \<Longrightarrow> objs st1 x = objs st x"
    by auto
  from sl have N1: "notifications st1 = notifications st" by (simp add: same_lists_def)
  have ar1: "arranged st1 pad scr p"
    unfolding arranged_def N1 same_lists_entry_y [OF sl] using placed by simp
  have "\<exists>st'. arrange_positions n st1 scr ps = Inr st' \<and> same_lists st1 st'
     \<and> (\<forall>x. (\<forall>p \<in> set ps. x \<notin> set (notifications st1 scr p)) \<longrightarrow> objs st' x = objs st1 x)
     \<and> (\<forall>q \<in> set ps.
           distinct ps
           \<and> (\<forall>p \<in> set ps. p \<noteq> q \<longrightarrow>
                  set (notifications st1 scr p) \<inter> set (notifications st1 scr q) = {})
           \<longrightarrow> arranged st' pad scr q)"
  proof (rule Cons.IH)
    show "valid_screen st1 scr"
      using Cons.prems(1) same_lists_valid [OF sl] by simp
    show "cfg_padding st1 = Some pad"
      using Cons.prems(2) sl by (simp add: same_lists_def)
    show "\<forall>p \<in> set ps. fits st1 pad scr p \<and> distinct (notifications st1 scr p)
            \<and> length (notifications st1 scr p) \<le> B"
      using Cons.prems(3) same_lists_fits [OF sl] N1 by simp
    show "B + length ps + 2 \<le> n"
      using Cons.prems(4) fuel by simp
  qed
  then obtain st' where ap: "arrange_positions n st1 scr ps = Inr st'"
    and sl': "same_lists st1 st'"
    and out': "\<And>x. (\<forall>p \<in> set ps. x \<notin> set (notifications st scr p)) \<Longrightarrow> objs st' x = objs st1 x"
    and rest: "\<And>q. q \<in> set ps \<Longrightarrow> distinct ps \<Longrightarrow>
           (\<forall>p \<in> set ps. p \<noteq> q \<longrightarrow>
                  set (notifications st scr p) \<inter> set (notifications st scr q) = {})
           \<Longrightarrow> arranged st' pad scr q"
    unfolding N1 by blast
  have res: "arrange_positions fuel st scr (p # ps) = Inr st'"
    unfolding fuel using al ap by simp
  have out: "objs st' x = objs st x"
    if "\<forall>q \<in> set (p # ps). x \<notin> set (notifications st scr q)" for x
    using that out' [of x] out1 [of x] by simp
  have arr: "arranged st' pad scr q"
    if q: "q \<in> set (p # ps)" and d: "distinct (p # ps)"
      and dj: "\<forall>p' \<in> set (p # ps). p' \<noteq> q \<longrightarrow>
                  set (notifications st scr p') \<inter> set (notifications st scr q) = {}" for q
  proof (cases "q = p")
    case True
    have "\<forall>x \<in> set (notifications st1 scr p). objs st' x = objs st1 x"
    proof
      fix x assume "x \<in> set (notifications st1 scr p)"
      with N1 have x: "x \<in> set ?L" by simp
      have "\<forall>p' \<in> set ps. x \<notin> set (notifications st scr p')"
      proof
        fix p' assume p': "p' \<in> set ps"
        with d True have "p' \<noteq> q" by auto
        with dj p' True x show "x \<notin> set (notifications st scr p')" by auto
      qed
      then show "objs st' x = objs st1 x" by (rule out')
    qed
    from arranged_same [OF sl' this ar1] True show ?thesis by simp
  next
    case False
    with q have "q \<in> set ps" by simp
    moreover from d have "distinct ps" by simp
    moreover from dj have "\<forall>p' \<in> set ps. p' \<noteq> q \<longrightarrow>
                  set (notifications st scr p') \<inter> set (notifications st scr q) = {}" by simp
    ultimately show ?thesis by (rule rest)
  qed
  from res same_lists_trans [OF sl sl'] out arr show ?case
    by blast
qed

subsection \<open>Destroying a visible notification\<close>

lemma table_remove_split:
  assumes "lua_index xs i = Some x"
  shows "\<exists>ys zs. xs = ys @ x # zs \<and> i = int (length ys) + 1 \<and> table_remove xs i = ys @ zs"
proof -
  from assms have r: "1 \<le> i" "i \<le> int (length xs)" and x: "x = xs ! nat (i - 1)"
    by (auto simp: lua_index_def split: if_splits)
  let ?k = "nat (i - 1)"
  from r have k: "?k < length xs" and s: "nat i = Suc ?k" by auto
  have "xs = take ?k xs @ x # drop (Suc ?k) xs"
    using id_take_nth_drop [OF k] x by simp
  moreover have "i = int (length (take ?k xs)) + 1"
    using r k by simp
  moreover have "table_remove xs i = take ?k xs @ drop (Suc ?k) xs"
    using r s by (simp add: table_remove_def)
  ultimately show ?thesis by blast
qed

lemma sum_take_before:
  "j \<le> length ys \<Longrightarrow> sum_list (map f (take j (ys @ zs))) = sum_list (map f (take j (ys @ x # zs)))"
  by simp

lemma sum_take_after:
  "length ys < j \<Longrightarrow>
   sum_list (map f (take (j - 1) (ys @ zs))) = sum_list (map f (take j (ys @ x # zs))) - (f x :: rat)"
proof -
  assume "length ys < j"
  then obtain d where j: "j = Suc (length ys + d)"
    by (metis less_iff_Suc_add)
  show ?thesis
    unfolding j by simp
qed

lemma all_positions_complete: "p \<in> set all_positions"
  by (cases p) (simp_all add: all_positions_def)

lemma all_positions_distinct: "distinct all_positions"
  by (simp add: all_positions_def)

lemma existing_sum_heights:
  "\<forall>x. n_height (os' x) = n_height (os x) \<Longrightarrow> existing_sum os' sp lst k = existing_sum os sp lst k"
  by (simp add: existing_sum_def)

lemma destroy_remove_objs:
  "objs (destroy_remove st r) = (objs st)(r := (stop_timer (objs st r))\<lparr> box_visible := False \<rparr>)"
  by (simp add: destroy_remove_def Let_def)

lemma destroy_remove_notifications:
  "notifications (destroy_remove st r) =
     (notifications st)
       (n_screen (objs st r) := (notifications st (n_screen (objs st r)))
          (n_position (objs st r) :=
             table_remove (notifications st (n_screen (objs st r)) (n_position (objs st r)))
               (n_idx (objs st r))))"
  by (simp add: destroy_remove_def Let_def)

lemma destroy_remove_kept:
  "n_height (objs (destroy_remove st r) x) = n_height (objs st x)"
  "box_y (objs (destroy_remove st r) x) = box_y (objs st x)"
  "n_idx (objs (destroy_remove st r) x) = n_idx (objs st x)"
  "n_position (objs (destroy_remove st r) x) = n_position (objs st x)"
  by (simp_all add: destroy_remove_objs stop_timer_def split: option.splits)

lemma destroy_callback_fields [simp]:
  "notifications (destroy_callback st r reason) = notifications st"
  "objs (destroy_callback st r reason) = objs st"
  by (simp_all add: destroy_callback_def)

lemma get_offset_y_shift:
  "get_offset_y ws pad p h (e - d) =
     (if lua_match (position_name p) ''top'' then get_offset_y ws pad p h e - d
      else get_offset_y ws pad p h e + d)"
  by (simp add: get_offset_y_def)

lemma destroy_visible_arranged:
  assumes vis: "box_visible (objs st r)"
    and scr: "n_screen (objs st r) = scr" and pos: "n_position (objs st r) = pos"
    and valid: "valid_screen st scr"
    and pad: "cfg_padding st = Some pad"
    and L: "notifications st scr pos = ys @ r # zs" and idx: "n_idx (objs st r) = int (length ys) + 1"
    and dist: "\<forall>p. distinct (notifications st scr p)"
    and own: "\<forall>p. \<forall>x \<in> set (notifications st scr p). n_position (objs st x) = p"
    and fit: "\<forall>p. fits (destroy_remove st r) pad scr p"
    and fuel: "(\<Sum>p\<leftarrow>all_positions. length (notifications st scr p)) + 10 \<le> fuel"
  shows "\<exists>st'. naughty_destroy fuel st (Some r) reason = Inr (True, st')
      \<and> notifications st' = (notifications st)(scr := (notifications st scr)(pos := ys @ zs))
      \<and> arranged st' pad scr pos
      \<and> workarea st' = workarea st \<and> cfg_spacing st' = cfg_spacing st
      \<and> (\<forall>x. n_height (objs st' x) = n_height (objs st x))"
proof -
  let ?st3 = "destroy_remove st r"
  let ?B = "\<Sum>p\<leftarrow>all_positions. length (notifications st scr p)"
  have "nat (int (length ys) + 1) = Suc (length ys)" by simp
  then have rem: "table_remove (ys @ r # zs) (int (length ys) + 1) = ys @ zs"
    by (simp add: table_remove_def)
  have N3: "notifications ?st3 = (notifications st)(scr := (notifications st scr)(pos := ys @ zs))"
    unfolding destroy_remove_notifications scr pos idx L rem ..
  have sub: "set (notifications ?st3 scr p) \<subseteq> set (notifications st scr p)" for p
    unfolding N3 using L by auto
  have len: "length (notifications ?st3 scr p) \<le> ?B" for p
  proof -
    have "length (notifications ?st3 scr p) \<le> length (notifications st scr p)"
      unfolding N3 using L by simp
    also have "\<dots> \<le> ?B"
      by (rule member_le_sum_list) (auto simp: all_positions_complete)
    finally show ?thesis .
  qed
  have dist3: "distinct (notifications ?st3 scr p)" for p
    unfolding N3 using dist [rule_format, of p] dist [rule_format, of pos] L by auto
  have disj3: "set (notifications ?st3 scr p) \<inter> set (notifications ?st3 scr q) = {}" if "p \<noteq> q" for p q
  proof -
    have False if x: "x \<in> set (notifications ?st3 scr p)" "x \<in> set (notifications ?st3 scr q)" for x
    proof -
      from x sub have "x \<in> set (notifications st scr p)" "x \<in> set (notifications st scr q)" by auto
      with own have "n_position (objs st x) = p" "n_position (objs st x) = q" by blast+
      with \<open>p \<noteq> q\<close> show False by simp
    qed
    then show ?thesis by auto
  qed
  from fuel obtain m where fm: "fuel = Suc (Suc m)" and m: "?B + length all_positions + 2 \<le> m"
    by (cases fuel; cases "fuel - 1") (auto simp: all_positions_def)
  have "\<exists>st4. arrange_positions m ?st3 scr all_positions = Inr st4 \<and> same_lists ?st3 st4
     \<and> (\<forall>x. (\<forall>p \<in> set all_positions. x \<notin> set (notifications ?st3 scr p)) \<longrightarrow> objs st4 x = objs ?st3 x)
     \<and> (\<forall>q \<in> set all_positions.
           distinct all_positions
           \<and> (\<forall>p \<in> set all_positions. p \<noteq> q \<longrightarrow>
                  set (notifications ?st3 scr p) \<inter> set (notifications ?st3 scr q) = {})
           \<longrightarrow> arranged st4 pad scr q)"
  proof (rule arrange_positions_fits)
    show "valid_screen ?st3 scr" using valid by simp
    show "cfg_padding ?st3 = Some pad" using pad by simp
    show "\<forall>p \<in> set all_positions. fits ?st3 pad scr p \<and> distinct (notifications ?st3 scr p)
            \<and> length (notifications ?st3 scr p) \<le> ?B"
      using fit dist3 len by simp
    show "?B + length all_positions + 2 \<le> m" by (rule m)
  qed
  then obtain st4 where ap: "arrange_positions m ?st3 scr all_positions = Inr st4"
    and sl: "same_lists ?st3 st4"
    and ar: "arranged st4 pad scr pos"
    using all_positions_complete [of pos] all_positions_distinct disj3 by blast
  have res: "naughty_destroy fuel st (Some r) reason = Inr (True, destroy_callback st4 r reason)"
    unfolding fm using vis valid scr ap by simp
  let ?st' = "destroy_callback st4 r reason"
  from sl have s4: "notifications st4 = notifications ?st3" "workarea st4 = workarea st"
    "cfg_spacing st4 = cfg_spacing st" "\<forall>x. n_height (objs st4 x) = n_height (objs st x)"
    by (simp_all add: same_lists_def destroy_remove_kept)
  have ar': "arranged ?st' pad scr pos"
    using ar by (simp add: arranged_def entry_y_def destroy_callback_def)
  have "workarea ?st' = workarea st" "cfg_spacing ?st' = cfg_spacing st"
    using s4 by (simp_all add: destroy_callback_def)
  with res ar' s4 N3 show ?thesis by simp
qed

lemma existing_sum_nonneg:
  assumes "\<forall>x \<in> set lst. 0 \<le> n_height (os x)" and "0 \<le> sp"
  shows "0 \<le> existing_sum os sp lst k"
  unfolding existing_sum_def
proof (rule sum_list_nonneg)
  fix v assume "v \<in> set (map (\<lambda>r. n_height (os r) + sp) (take k lst))"
  then obtain x where "x \<in> set (take k lst)" "v = n_height (os x) + sp" by auto
  with assms in_set_takeD [of x k lst] show "0 \<le> v" by auto
qed

lemma shift_fits:
  "\<not> outside_workarea ws (get_offset_y ws pad p h e) h \<Longrightarrow> 0 \<le> e - d \<Longrightarrow> 0 \<le> d \<Longrightarrow> 0 \<le> pad
   \<Longrightarrow> \<not> outside_workarea ws (get_offset_y ws pad p h (e - d)) h"
  by (auto simp: outside_workarea_def get_offset_y_def split: if_splits)

lemma fits_after_remove:
  assumes scr: "n_screen (objs st r) = scr" and pos: "n_position (objs st r) = pos"
    and L: "notifications st scr pos = ys @ r # zs" and idx: "n_idx (objs st r) = int (length ys) + 1"
    and pad: "0 \<le> pad" and sp: "0 \<le> cfg_spacing st"
    and h: "\<forall>x \<in> set (notifications st scr pos). 0 \<le> n_height (objs st x)"
    and fit: "fits st pad scr p"
  shows "fits (destroy_remove st r) pad scr p"
proof -
  let ?st3 = "destroy_remove st r"
  let ?f = "\<lambda>x. n_height (objs st x) + cfg_spacing st"
  have "nat (int (length ys) + 1) = Suc (length ys)" by simp
  then have rem: "table_remove (ys @ r # zs) (int (length ys) + 1) = ys @ zs"
    by (simp add: table_remove_def)
  have N3: "notifications ?st3 = (notifications st)(scr := (notifications st scr)(pos := ys @ zs))"
    unfolding destroy_remove_notifications scr pos idx L rem ..
  have es: "existing_sum (objs ?st3) sp' lst k = existing_sum (objs st) sp' lst k" for sp' lst k
    by (rule existing_sum_heights) (simp add: destroy_remove_kept)
  show ?thesis
  proof (cases "p = pos")
    case False
    then have "notifications ?st3 scr p = notifications st scr p" by (simp add: N3)
    with fit show ?thesis
      by (simp add: fits_def entry_y_def destroy_remove_kept es)
  next
    case True
    have "\<not> outside_workarea (workarea st scr)
             (get_offset_y (workarea st scr) pad pos (n_height (objs st ((ys @ zs) ! j)))
                (existing_sum (objs st) (cfg_spacing st) (ys @ zs) j))
             (n_height (objs st ((ys @ zs) ! j)))"
      if j: "j < length (ys @ zs)" for j
    proof (cases "j < length ys")
      case True
      then have a: "(ys @ zs) ! j = (ys @ r # zs) ! j"
        by (simp add: nth_append)
      from True have b: "existing_sum (objs st) (cfg_spacing st) (ys @ zs) j
          = existing_sum (objs st) (cfg_spacing st) (ys @ r # zs) j"
        by (simp add: existing_sum_def)
      from True have "j < length (notifications st scr pos)" by (simp add: L)
      with fit \<open>p = pos\<close> show ?thesis
        unfolding a b by (simp add: fits_def entry_y_def L)
    next
      case False
      then have a: "(ys @ zs) ! j = (ys @ r # zs) ! Suc j"
        by (simp add: nth_append Suc_diff_le)
      from False have "length ys < Suc j" by simp
      from sum_take_after [OF this, of ?f zs r]
      have b: "existing_sum (objs st) (cfg_spacing st) (ys @ zs) j
          = existing_sum (objs st) (cfg_spacing st) (ys @ r # zs) (Suc j) - ?f r"
        by (simp add: existing_sum_def)
      from j have sj: "Suc j < length (notifications st scr pos)" by (simp add: L)
      with fit \<open>p = pos\<close> have before: "\<not> outside_workarea (workarea st scr)
             (get_offset_y (workarea st scr) pad pos (n_height (objs st ((ys @ r # zs) ! Suc j)))
                (existing_sum (objs st) (cfg_spacing st) (ys @ r # zs) (Suc j)))
             (n_height (objs st ((ys @ r # zs) ! Suc j)))"
        by (simp add: fits_def entry_y_def L)
      have "\<forall>x \<in> set (ys @ zs). 0 \<le> n_height (objs st x)"
        using h L by auto
      from existing_sum_nonneg [OF this sp, of j]
      have e0: "0 \<le> existing_sum (objs st) (cfg_spacing st) (ys @ r # zs) (Suc j) - ?f r"
        unfolding b .
      from h L sp have d0: "0 \<le> ?f r" by simp
      from shift_fits [OF before e0 d0 pad] show ?thesis
        unfolding a b .
    qed
    with True show ?thesis
      by (simp add: fits_def entry_y_def N3 destroy_remove_kept es)
  qed
qed

text \<open>
  On a well-arranged screen \<open>naughty.destroy\<close> does what is meant. Let the notification
  \<open>r\<close> be visible and stand at index \<open>i\<close> of the list of its screen and position. Let the
  lists of that screen be well arranged: no entry occurs twice, every entry carries the
  position of its list, has a height that is not negative and fits into the work area at
  its index, and in the list of \<open>r\<close> every entry records its index and is displayed at the
  y of its index; let padding and spacing not be negative. Then, given fuel for the six
  positions and the entries, \<open>naughty.destroy\<close> returns true; the list of \<open>r\<close> has lost
  exactly the entry at \<open>i\<close> and no other list has changed; every sibling before \<open>i\<close> keeps
  its index and its y; every sibling after \<open>i\<close> records an index one less, and its offset
  from the anchored edge is smaller by the height of \<open>r\<close> plus the spacing: its y is smaller
  by that amount at a top position and larger by that amount at a bottom position.
\<close>

theorem destroy_shifts_later_siblings:
  assumes vis: "box_visible (objs st r)"
    and scr: "n_screen (objs st r) = scr" and pos: "n_position (objs st r) = pos"
    and valid: "valid_screen st scr"
    and pad: "cfg_padding st = Some pad" and pad0: "0 \<le> pad" and sp: "0 \<le> cfg_spacing st"
    and at: "lua_index (notifications st scr pos) i = Some r"
    and wf: "\<forall>p. distinct (notifications st scr p) \<and> fits st pad scr p
              \<and> (\<forall>x \<in> set (notifications st scr p).
                     n_position (objs st x) = p \<and> 0 \<le> n_height (objs st x))"
    and arr: "arranged st pad scr pos"
    and fuel: "(\<Sum>p\<leftarrow>all_positions. length (notifications st scr p)) + 10 \<le> fuel"
  shows "\<exists>st'. naughty_destroy fuel st (Some r) reason = Inr (True, st')
     \<and> notifications st' =
         (notifications st)(scr := (notifications st scr)
            (pos := table_remove (notifications st scr pos) i))
     \<and> (\<forall>j < length (notifications st scr pos).
          (int j + 1 < i \<longrightarrow>
             n_idx (objs st' (notifications st scr pos ! j)) = int j + 1
             \<and> box_y (objs st' (notifications st scr pos ! j))
                 = box_y (objs st (notifications st scr pos ! j)))
          \<and> (i < int j + 1 \<longrightarrow>
             n_idx (objs st' (notifications st scr pos ! j)) = int j
             \<and> box_y (objs st' (notifications st scr pos ! j))
                 = (if lua_match (position_name pos) ''top''
                    then box_y (objs st (notifications st scr pos ! j))
                         - (n_height (objs st r) + cfg_spacing st)
                    else box_y (objs st (notifications st scr pos ! j))
                         + (n_height (objs st r) + cfg_spacing st))))"
proof -
  let ?L = "notifications st scr pos"
  let ?f = "\<lambda>x. n_height (objs st x) + cfg_spacing st"
  let ?ws = "workarea st scr"
  from table_remove_split [OF at] obtain ys zs
    where L: "?L = ys @ r # zs" and i: "i = int (length ys) + 1" and rem: "table_remove ?L i = ys @ zs"
    by blast
  have old: "n_idx (objs st (?L ! j)) = int j + 1 \<and> box_y (objs st (?L ! j)) = entry_y st pad scr pos j"
    if "j < length ?L" for j
    using arr that by (simp add: arranged_def)
  from old [of "length ys"] L have idx: "n_idx (objs st r) = int (length ys) + 1"
    by simp
  have h: "\<forall>x \<in> set ?L. 0 \<le> n_height (objs st x)"
    using wf by blast
  have fit: "\<forall>p. fits (destroy_remove st r) pad scr p"
    using fits_after_remove [OF scr pos L idx pad0 sp h] wf by blast
  have dist: "\<forall>p. distinct (notifications st scr p)"
    and own: "\<forall>p. \<forall>x \<in> set (notifications st scr p). n_position (objs st x) = p"
    using wf by blast+
  from destroy_visible_arranged [OF vis scr pos valid pad L idx dist own fit fuel, of reason]
  obtain st' where res: "naughty_destroy fuel st (Some r) reason = Inr (True, st')"
    and N': "notifications st' = (notifications st)(scr := (notifications st scr)(pos := ys @ zs))"
    and ar': "arranged st' pad scr pos"
    and same: "workarea st' = workarea st" "cfg_spacing st' = cfg_spacing st"
      "\<forall>x. n_height (objs st' x) = n_height (objs st x)"
    by blast
  from N' have L': "notifications st' scr pos = ys @ zs" by simp
  have es: "existing_sum (objs st') sp' lst k = existing_sum (objs st) sp' lst k" for sp' lst k
    by (rule existing_sum_heights) (rule same(3))
  have new: "n_idx (objs st' ((ys @ zs) ! j)) = int j + 1
      \<and> box_y (objs st' ((ys @ zs) ! j))
          = get_offset_y ?ws pad pos (n_height (objs st ((ys @ zs) ! j)))
              (existing_sum (objs st) (cfg_spacing st) (ys @ zs) j)"
    if "j < length (ys @ zs)" for j
    using ar' that same(3) unfolding arranged_def L' entry_y_def same(1,2) es by simp
  have before: "n_idx (objs st' (?L ! j)) = int j + 1 \<and> box_y (objs st' (?L ! j)) = box_y (objs st (?L ! j))"
    if j: "j < length ?L" "int j + 1 < i" for j
  proof -
    from j i have jy: "j < length ys" by simp
    then have a: "(ys @ zs) ! j = ?L ! j"
      by (simp add: L nth_append)
    from jy have b: "existing_sum (objs st) (cfg_spacing st) (ys @ zs) j
          = existing_sum (objs st) (cfg_spacing st) ?L j"
      by (simp add: existing_sum_def L)
    from jy have "j < length (ys @ zs)" by simp
    from new [OF this] old [OF j(1)] show ?thesis
      unfolding a b by (simp add: entry_y_def)
  qed
  have after: "n_idx (objs st' (?L ! j)) = int j
      \<and> box_y (objs st' (?L ! j))
          = (if lua_match (position_name pos) ''top''
             then box_y (objs st (?L ! j)) - ?f r
             else box_y (objs st (?L ! j)) + ?f r)"
    if j: "j < length ?L" "i < int j + 1" for j
  proof -
    from j i have jy: "length ys < j" by simp
    then obtain j' where j': "j = Suc j'" by (cases j) auto
    with jy have a: "(ys @ zs) ! j' = ?L ! j"
      by (simp add: L nth_append Suc_diff_le)
    from sum_take_after [OF jy, of ?f zs r] j'
    have b: "existing_sum (objs st) (cfg_spacing st) (ys @ zs) j'
          = existing_sum (objs st) (cfg_spacing st) ?L j - ?f r"
      by (simp add: existing_sum_def L)
    from j(1) j' have "j' < length (ys @ zs)" by (simp add: L)
    from new [OF this] old [OF j(1)] j' show ?thesis
      unfolding a b get_offset_y_shift by (simp add: entry_y_def)
  qed
  from res N' rem before after show ?thesis
    by auto
qed

text \<open>
  C5 at a failing input. The claim says that destroying the visible notification at list
  index i removes exactly that entry. In \<open>stale_index_state\<close> the list at the top right is
  \<open>[0, 1, 2]\<close>, all three popups are visible, and notification 2, at list index 3, records
  the index 2: when it was made, the eviction of the oldest, hidden popup removed nothing
  and the index was lowered all the same. Destroying notification 2 removes the entry at
  the recorded index: notification 1 leaves the list, although its box stays visible, and
  the destroyed notification 2 stays in the list.
\<close>

theorem destroy_removes_entry_at_stale_index:
  "(case stale_index_state of
      Inr s \<Rightarrow>
        notifications s 1 Top_right = [0, 1, 2]
        \<and> box_visible (objs s 0) \<and> box_visible (objs s 1) \<and> box_visible (objs s 2)
        \<and> n_idx (objs s 0) = 1 \<and> n_idx (objs s 1) = 2 \<and> n_idx (objs s 2) = 2
        \<and> (case naughty_destroy 20 s (Some 2) (Some reason_dismissedByUser) of
             Inr (True, s') \<Rightarrow>
               notifications s' 1 Top_right = [0, 2]
               \<and> box_visible (objs s' 1) \<and> \<not> box_visible (objs s' 2)
           | _ \<Rightarrow> False)
    | Inl e \<Rightarrow> False)"
  by code_simp

theorem destroy_shifts_later_siblings_witness:
  "(case naughty_destroy 13 three_top_state (Some 1) (Some reason_dismissedByUser) of
      Inr (True, st') \<Rightarrow>
        notifications st' 1 Top_right = [0, 2]
        \<and> n_idx (objs st' 0) = 1 \<and> box_y (objs st' 0) = 24
        \<and> n_idx (objs st' 2) = 2 \<and> box_y (objs st' 2) = 67
    | _ \<Rightarrow> False)"
proof -
  let ?s = "three_top_state"
  have o: "objs ?s 0 = popup_at Top_right 1 24" "objs ?s 1 = popup_at Top_right 2 67"
    "objs ?s 2 = popup_at Top_right 3 110"
    "notifications ?s 1 = (\<lambda>p. if p = Top_right then [0, 1, 2] else [])"
    "workarea ?s 1 = \<lparr> r_x = 100, r_y = 20, r_width = 800, r_height = 600 \<rparr>"
    "cfg_spacing ?s = 1" "cfg_padding ?s = Some 4"
    by (simp_all add: three_top_state_def initial_state_def screen_800x600_def)
  have pa: "n_height (popup_at p i y) = 42" "n_position (popup_at p i y) = p" "n_idx (popup_at p i y) = i"
    "box_y (popup_at p i y) = y" "box_visible (popup_at p i y)" "n_screen (popup_at p i y) = 1" for p i y
    by (simp_all add: popup_at_def shown_popup_def)
  have top: "lua_match (position_name Top_right) ''top''" by simp
  have vis: "box_visible (objs ?s 1)" and scr: "n_screen (objs ?s 1) = 1"
    and pos: "n_position (objs ?s 1) = Top_right"
    by (simp_all add: o pa del: One_nat_def)
  have valid: "valid_screen ?s 1"
    by (simp add: valid_screen_def three_top_state_def initial_state_def)
  have at: "lua_index (notifications ?s 1 Top_right) 2 = Some 1"
    by (simp add: o lua_index_def del: One_nat_def)
  have fit: "fits ?s 4 1 p" for p
    by (simp add: fits_def entry_y_def o pa less_Suc_eq existing_sum_def get_offset_y_def
        outside_workarea_def top del: One_nat_def)
  have wf: "\<forall>p. distinct (notifications ?s 1 p) \<and> fits ?s 4 1 p
              \<and> (\<forall>x \<in> set (notifications ?s 1 p).
                     n_position (objs ?s x) = p \<and> 0 \<le> n_height (objs ?s x))"
    using fit by (simp add: o pa del: One_nat_def)
  have arr: "arranged ?s 4 1 Top_right"
    by (simp add: arranged_def entry_y_def o pa less_Suc_eq existing_sum_def get_offset_y_def top del: One_nat_def)
  have fuel: "(\<Sum>p\<leftarrow>all_positions. length (notifications ?s 1 p)) + 10 \<le> 13"
    by (simp add: o all_positions_def del: One_nat_def)
  from destroy_shifts_later_siblings [OF vis scr pos valid o(7) _ _ at wf arr fuel,
      of "Some reason_dismissedByUser"]
  obtain st' where res: "naughty_destroy 13 ?s (Some 1) (Some reason_dismissedByUser) = Inr (True, st')"
    and N: "notifications st' = (notifications ?s)(1 := (notifications ?s 1)
            (Top_right := table_remove (notifications ?s 1 Top_right) 2))"
    and sib: "\<forall>j < length (notifications ?s 1 Top_right).
          (int j + 1 < 2 \<longrightarrow>
             n_idx (objs st' (notifications ?s 1 Top_right ! j)) = int j + 1
             \<and> box_y (objs st' (notifications ?s 1 Top_right ! j))
                 = box_y (objs ?s (notifications ?s 1 Top_right ! j)))
          \<and> (2 < int j + 1 \<longrightarrow>
             n_idx (objs st' (notifications ?s 1 Top_right ! j)) = int j
             \<and> box_y (objs st' (notifications ?s 1 Top_right ! j))
                 = (if lua_match (position_name Top_right) ''top''
                    then box_y (objs ?s (notifications ?s 1 Top_right ! j))
                         - (n_height (objs ?s 1) + cfg_spacing ?s)
                    else box_y (objs ?s (notifications ?s 1 Top_right ! j))
                         + (n_height (objs ?s 1) + cfg_spacing ?s)))"
    by (auto simp: o simp del: One_nat_def)
  from N have a: "notifications st' 1 Top_right = [0, 2]"
    by (simp add: o table_remove_def del: One_nat_def)
  from sib [rule_format, of 0] have b: "n_idx (objs st' 0) = 1 \<and> box_y (objs st' 0) = 24"
    by (simp add: o pa del: One_nat_def)
  from sib [rule_format, of 2] have c: "n_idx (objs st' 2) = 2 \<and> box_y (objs st' 2) = 67"
    by (simp add: o pa del: One_nat_def)
  from res a b c show ?thesis by simp
qed

end
